theory Spec2Isabelle
  imports Complex_Main "HOL-Library.Sublist" "HOL-Library.AList"
begin

section \<open>Strings and numbers of the source language\<close>

text \<open>
  The program is TypeScript. A string is a sequence of UTF-16 code units; a code unit is
  modelled as a natural number (below 65536), so that the white space and line
  terminators beyond Latin-1 that \<^verbatim>\<open>trim\<close> and \<^verbatim>\<open>\s\<close> recognise can be written down.
  String literals of the source are written \<open>js ''...''\<close>.
\<close>

type_synonym jschar = nat
type_synonym jsstring = "jschar list"

definition js :: "string \<Rightarrow> jsstring" where
  "js s = map of_char s"

text \<open>A number of the source is a double; the governor's quantities are modelled as reals.\<close>

type_synonym number = real

section \<open>The resource governor (ResourceGovernor)\<close>

record ResourceLimits =
  cpu :: number
  memory_mb :: number
  timeout_ms :: number
  max_output_bytes :: number

record GovernorState =
  is_governed :: bool
  limits :: ResourceLimits
  start_time :: number
  memory_samples :: "number list"
  cpu_samples :: "number list"
  output_bytes :: number
  killed :: bool
  kill_reason :: "jsstring option"

text \<open>
  The object: its private field \<^verbatim>\<open>state\<close> (here \<open>gstate\<close>), the other private fields, and what it has done to the outside:
  \<open>signals\<close> lists the process groups that \<^verbatim>\<open>kill -9 -<pgid>\<close> was run on (latest first),
  \<open>aborted\<close> is the abort controller's signal (\<open>None\<close> while there is no controller),
  \<open>monitoring_interval\<close> is whether the sampling timer is armed.
\<close>

record ResourceGovernor =
  gstate :: GovernorState
  glimits :: ResourceLimits
  process_group_id :: "nat option"
  aborted :: "bool option"
  monitoring_interval :: bool
  signals :: "nat list"

record PartialLimits =
  p_cpu :: "number option"
  p_memory_mb :: "number option"
  p_timeout_ms :: "number option"
  p_max_output_bytes :: "number option"

definition nullish :: "'a option \<Rightarrow> 'a \<Rightarrow> 'a" where
  "nullish v d = (case v of None \<Rightarrow> d | Some x \<Rightarrow> x)"

definition createGovernor :: "PartialLimits \<Rightarrow> ResourceGovernor" where
  "createGovernor l =
     (let lim = \<lparr> cpu = nullish (p_cpu l) 2,
                  memory_mb = nullish (p_memory_mb l) 2048,
                  timeout_ms = nullish (p_timeout_ms l) 300000,
                  max_output_bytes = nullish (p_max_output_bytes l) (10 * 1024 * 1024) \<rparr>
      in \<lparr> gstate = \<lparr> is_governed = False, limits = lim, start_time = 0,
                      memory_samples = [], cpu_samples = [], output_bytes = 0,
                      killed = False, kill_reason = None \<rparr>,
           glimits = lim, process_group_id = None, aborted = None,
           monitoring_interval = False, signals = [] \<rparr>)"

text \<open>
  \<^verbatim>\<open>startGovernance(pgid)\<close> at time \<open>now\<close> (the value of \<^verbatim>\<open>Date.now()\<close>), without an
  outer abort signal.
\<close>

definition startGovernance :: "number \<Rightarrow> nat \<Rightarrow> ResourceGovernor \<Rightarrow> ResourceGovernor" where
  "startGovernance now pgid g =
     g \<lparr> process_group_id := Some pgid,
         gstate := (gstate g) \<lparr> start_time := now, is_governed := True, killed := False \<rparr>,
         aborted := Some False,
         monitoring_interval := True \<rparr>"

definition stopMonitoring :: "ResourceGovernor \<Rightarrow> ResourceGovernor" where
  "stopMonitoring g = (if monitoring_interval g then g \<lparr> monitoring_interval := False \<rparr> else g)"

text \<open>
  \<^verbatim>\<open>`${reason}: ${value ?? "unknown"}`\<close>. The decimal rendering of a number is not part
  of the sources; it is the parameter \<open>fmt\<close>.
\<close>

definition reason_text :: "(number \<Rightarrow> jsstring) \<Rightarrow> jsstring \<Rightarrow> number option \<Rightarrow> jsstring" where
  "reason_text fmt reason v =
     reason @ js '': '' @ (case v of None \<Rightarrow> js ''unknown'' | Some x \<Rightarrow> fmt x)"

text \<open>
  \<^verbatim>\<open>if (this.process_group_id)\<close> is false for \<open>null\<close> and for the group 0. A failing
  \<^verbatim>\<open>kill\<close> is caught and logged, so the call is recorded either way.
\<close>

definition killProcess ::
  "(number \<Rightarrow> jsstring) \<Rightarrow> jsstring \<Rightarrow> number option \<Rightarrow> ResourceGovernor \<Rightarrow> ResourceGovernor" where
  "killProcess fmt reason v g =
     (if killed (gstate g) then g
      else
        let g1 = g \<lparr> gstate := (gstate g) \<lparr> killed := True,
                                          kill_reason := Some (reason_text fmt reason v) \<rparr> \<rparr>;
            g2 = stopMonitoring g1;
            g3 = (case process_group_id g2 of
                    None \<Rightarrow> g2
                  | Some pgid \<Rightarrow> if pgid = 0 then g2 else g2 \<lparr> signals := pgid # signals g2 \<rparr>)
        in g3 \<lparr> aborted := map_option (\<lambda>_. True) (aborted g3) \<rparr>)"

definition trackOutput :: "(number \<Rightarrow> jsstring) \<Rightarrow> number \<Rightarrow> ResourceGovernor \<Rightarrow> ResourceGovernor" where
  "trackOutput fmt bytes g =
     (let g1 = g \<lparr> gstate := (gstate g) \<lparr> output_bytes := output_bytes (gstate g) + bytes \<rparr> \<rparr>
      in if output_bytes (gstate g1) > max_output_bytes (glimits g1)
         then killProcess fmt (js ''output_limit_exceeded'') (Some (output_bytes (gstate g1))) g1
         else g1)"

definition stop :: "ResourceGovernor \<Rightarrow> ResourceGovernor" where
  "stop g =
     (let g1 = stopMonitoring g
      in g1 \<lparr> gstate := (gstate g1) \<lparr> is_governed := False, killed := False \<rparr> \<rparr>)"

section \<open>The session lifecycle (SessionLifecycleManager)\<close>

subsection \<open>Paths and the file system\<close>

text \<open>
  A path is the list of its segments below the root. \<^verbatim>\<open>path.join(dir, name)\<close> splits
  \<open>name\<close> at the slashes and normalises: empty segments and \<^verbatim>\<open>.\<close> vanish, \<^verbatim>\<open>..\<close> steps
  up. \<^verbatim>\<open>path.dirname\<close> drops the last segment.
\<close>

type_synonym path = "jsstring list"

fun segments :: "jsstring \<Rightarrow> jsstring list" where
  "segments [] = [[]]"
| "segments (c # cs) =
     (if c = 47 then [] # segments cs
      else (case segments cs of [] \<Rightarrow> [[c]] | seg # segs \<Rightarrow> (c # seg) # segs))"

definition join_step :: "path \<Rightarrow> jsstring \<Rightarrow> path" where
  "join_step p seg =
     (if seg = [] \<or> seg = js ''.'' then p
      else if seg = js ''..'' then butlast p
      else p @ [seg])"

definition path_join :: "path \<Rightarrow> jsstring \<Rightarrow> path" where
  "path_join p name = foldl join_step p (segments name)"

definition dirname :: "path \<Rightarrow> path" where
  "dirname p = butlast p"

datatype node = Dir | File jsstring

type_synonym filesystem = "(path \<times> node) list"

text \<open>
  What the program does not decide: which file operations fail and with what error,
  whether \<^verbatim>\<open>await import("child_process")\<close> rejects, what a command does, the identifiers
  and the clock. \<open>render\<close> is \<^verbatim>\<open>String(error)\<close>.
\<close>

datatype js_error = ENOENT path | ENOTDIR path | EISDIR path | Fault jsstring

datatype exec_outcome =
    ExecOk jsstring
  | ExecErr "int option" "jsstring option" "jsstring option" jsstring

record env =
  mkdir_fault :: "path \<Rightarrow> jsstring option"
  write_fault :: "path \<Rightarrow> jsstring option"
  rm_fault :: "path \<Rightarrow> jsstring option"
  readdir_fault :: "path \<Rightarrow> jsstring option"
  import_fault :: "jsstring option"
  execSync :: "jsstring \<Rightarrow> path \<Rightarrow> filesystem \<Rightarrow> exec_outcome \<times> filesystem"
  uuidv4 :: "nat \<Rightarrow> jsstring"
  clock :: "nat \<Rightarrow> number"
  render :: "js_error \<Rightarrow> jsstring"

definition path_exists :: "filesystem \<Rightarrow> path \<Rightarrow> bool" where
  "path_exists fs p = (map_of fs p \<noteq> None)"

definition is_file :: "node option \<Rightarrow> bool" where
  "is_file n = (case n of Some (File c) \<Rightarrow> True | _ \<Rightarrow> False)"

text \<open>\<^verbatim>\<open>fs.mkdir(p, {recursive: true})\<close>: every missing ancestor and \<open>p\<close> become directories.\<close>

definition fs_mkdir :: "env \<Rightarrow> path \<Rightarrow> filesystem \<Rightarrow> js_error option \<times> filesystem" where
  "fs_mkdir e p fs =
     (case mkdir_fault e p of
        Some msg \<Rightarrow> (Some (Fault msg), fs)
      | None \<Rightarrow>
          (case List.find (\<lambda>q. is_file (map_of fs q)) (prefixes p) of
             Some q \<Rightarrow> (Some (ENOTDIR q), fs)
           | None \<Rightarrow>
               (None, fs @ map (\<lambda>q. (q, Dir))
                              (filter (\<lambda>q. q \<noteq> [] \<and> map_of fs q = None) (prefixes p)))))"

text \<open>\<^verbatim>\<open>fs.rm(p, {recursive: true, force: true})\<close>: \<open>p\<close> and all below it go; a missing \<open>p\<close> is fine.\<close>

definition fs_rm :: "env \<Rightarrow> path \<Rightarrow> filesystem \<Rightarrow> js_error option \<times> filesystem" where
  "fs_rm e p fs =
     (case rm_fault e p of
        Some msg \<Rightarrow> (Some (Fault msg), fs)
      | None \<Rightarrow> (None, filter (\<lambda>(q, n). \<not> prefix p q) fs))"

definition fs_writeFile ::
  "env \<Rightarrow> path \<Rightarrow> jsstring \<Rightarrow> filesystem \<Rightarrow> js_error option \<times> filesystem" where
  "fs_writeFile e p content fs =
     (case write_fault e p of
        Some msg \<Rightarrow> (Some (Fault msg), fs)
      | None \<Rightarrow>
          if p \<noteq> [] \<and> map_of fs (butlast p) \<noteq> Some Dir \<and> butlast p \<noteq> [] then (Some (ENOENT p), fs)
          else if p = [] \<or> map_of fs p = Some Dir then (Some (EISDIR p), fs)
          else (None, AList.update p (File content) fs))"

fun join_with :: "jsstring \<Rightarrow> jsstring list \<Rightarrow> jsstring" where
  "join_with sep [] = []"
| "join_with sep [x] = x"
| "join_with sep (x # y # ys) = x @ sep @ join_with sep (y # ys)"

text \<open>\<^verbatim>\<open>fs.readdir(p, {recursive: true})\<close>: the names below \<open>p\<close>, relative to it.\<close>

definition fs_readdir :: "env \<Rightarrow> path \<Rightarrow> filesystem \<Rightarrow> js_error + jsstring list" where
  "fs_readdir e p fs =
     (case readdir_fault e p of
        Some msg \<Rightarrow> Inl (Fault msg)
      | None \<Rightarrow>
          if p \<noteq> [] \<and> map_of fs p = None then Inl (ENOENT p)
          else if is_file (map_of fs p) then Inl (ENOTDIR p)
          else Inr (map (\<lambda>(q, n). join_with (js ''/'') (drop (length p) q))
                        (filter (\<lambda>(q, n). strict_prefix p q) fs)))"

subsection \<open>Sessions, the manager and the world\<close>

datatype SessionState =
  INIT | PREPARING | EXECUTING | COLLECTING | DESTROYING | DESTROYED | ERROR

record SessionContext =
  session_id :: jsstring
  job_id :: jsstring
  state :: SessionState
  work_dir :: path
  output_dir :: path
  config_path :: path
  created_at :: number
  started_at :: "number option"
  finished_at :: "number option"
  error :: "jsstring option"

record SessionOptions =
  o_base_dir :: "path option"
  work_dir_name :: "jsstring option"
  output_dir_name :: "jsstring option"

datatype log_level = Debug | Info | Warn | Error

datatype log_value = LStr jsstring | LNum number | LState SessionState | LPath path

type_synonym log_entry = "log_level \<times> jsstring \<times> (jsstring \<times> log_value) list"

text \<open>
  A session object lives in the \<open>heap\<close> under a reference, since the registry, the caller
  and the callbacks all hold the same object. \<open>log\<close> is the sequence of calls of the
  logger, \<open>ticks\<close> and \<open>uuids\<close> count the readings of the clock and the identifiers drawn.
\<close>

type_synonym ref = nat

record World =
  fs :: filesystem
  heap :: "ref \<Rightarrow> SessionContext"
  next_ref :: ref
  log :: "log_entry list"
  ticks :: nat
  uuids :: nat

record Manager =
  base_dir :: path
  sessions_dir :: path
  active_sessions :: "(jsstring \<times> ref) list"

text \<open>
  The callback \<^verbatim>\<open>onStateChange\<close> is code of the caller: it may change anything and may
  throw (\<open>Some\<close> error). The other two callbacks are never called by the manager.
\<close>

type_synonym callback =
  "ref \<Rightarrow> SessionState \<Rightarrow> SessionState \<Rightarrow> Manager \<Rightarrow> World \<Rightarrow> js_error option \<times> Manager \<times> World"

definition logger :: "log_level \<Rightarrow> jsstring \<Rightarrow> (jsstring \<times> log_value) list \<Rightarrow> World \<Rightarrow> World" where
  "logger lvl ev meta w = w \<lparr> log := log w @ [(lvl, ev, meta)] \<rparr>"

definition Date_now :: "env \<Rightarrow> World \<Rightarrow> number \<times> World" where
  "Date_now e w = (clock e (ticks w), w \<lparr> ticks := Suc (ticks w) \<rparr>)"

definition set_session :: "ref \<Rightarrow> (SessionContext \<Rightarrow> SessionContext) \<Rightarrow> World \<Rightarrow> World" where
  "set_session s f w = w \<lparr> heap := (heap w)(s := f (heap w s)) \<rparr>"

definition DEFAULT_BASE_DIR :: path where
  "DEFAULT_BASE_DIR = [js ''opt'', js ''opencode'']"

definition new_manager :: "path option \<Rightarrow> Manager" where
  "new_manager b =
     (let bd = nullish b DEFAULT_BASE_DIR
      in \<lparr> base_dir = bd, sessions_dir = path_join bd (js ''sessions''), active_sessions = [] \<rparr>)"

definition initialize :: "env \<Rightarrow> Manager \<Rightarrow> World \<Rightarrow> js_error option \<times> World" where
  "initialize e m w =
     (case fs_mkdir e (sessions_dir m) (fs w) of
        (Some err, fs') \<Rightarrow> (Some err, w \<lparr> fs := fs' \<rparr>)
      | (None, fs') \<Rightarrow>
          (None, logger Info (js ''Session lifecycle manager initialized'')
                   [(js ''sessions_dir'', LPath (sessions_dir m))] (w \<lparr> fs := fs' \<rparr>)))"

definition transitionState ::
  "callback option \<Rightarrow> ref \<Rightarrow> SessionState \<Rightarrow> SessionState \<Rightarrow> Manager \<Rightarrow> World
     \<Rightarrow> js_error option \<times> Manager \<times> World" where
  "transitionState cb s from to m w =
     (let sess = heap w s;
          w1 = (if state sess \<noteq> from
                then logger Warn (js ''State transition mismatch'')
                       [(js ''session_id'', LStr (session_id sess)),
                        (js ''expected'', LState from), (js ''actual'', LState (state sess))] w
                else w);
          old_state = state sess;
          w2 = set_session s (\<lambda>x. x \<lparr> state := to \<rparr>) w1;
          w3 = logger Info (js ''Session state transition'')
                 [(js ''session_id'', LStr (session_id sess)), (js ''job_id'', LStr (job_id sess)),
                  (js ''from'', LState old_state), (js ''to'', LState to)] w2
      in case cb of None \<Rightarrow> (None, m, w3) | Some f \<Rightarrow> f s old_state to m w3)"

subsection \<open>The manager's methods\<close>

text \<open>\<^verbatim>\<open>a || b\<close> on an optional string: the empty string is falsy too.\<close>

definition or_default :: "jsstring option \<Rightarrow> jsstring \<Rightarrow> jsstring" where
  "or_default v d = (case v of None \<Rightarrow> d | Some x \<Rightarrow> if x = [] then d else x)"

definition createSession ::
  "callback option \<Rightarrow> env \<Rightarrow> jsstring \<Rightarrow> SessionOptions \<Rightarrow> Manager \<Rightarrow> World
     \<Rightarrow> (js_error + ref) \<times> Manager \<times> World" where
  "createSession cb e jid opts m w0 =
     (let sid = uuidv4 e (uuids w0);
          w1 = w0 \<lparr> uuids := Suc (uuids w0) \<rparr>;
          session_dir = path_join (sessions_dir m) (js ''session-'' @ sid);
          wd = path_join session_dir (or_default (work_dir_name opts) (js ''work''));
          od = path_join session_dir (or_default (output_dir_name opts) (js ''output''));
          cp = path_join session_dir (js ''opencode.json'');
          (now, w2) = Date_now e w1;
          s = next_ref w2;
          w3 = w2 \<lparr> next_ref := Suc s,
                    heap := (heap w2)(s := \<lparr> session_id = sid, job_id = jid, state = INIT,
                      work_dir = wd, output_dir = od, config_path = cp, created_at = now,
                      started_at = None, finished_at = None, error = None \<rparr>) \<rparr>
      in case fs_mkdir e wd (fs w3) of
           (Some err, fs4) \<Rightarrow> (Inl err, m, w3 \<lparr> fs := fs4 \<rparr>)
         | (None, fs4) \<Rightarrow>
        (case fs_mkdir e od fs4 of
           (Some err, fs5) \<Rightarrow> (Inl err, m, w3 \<lparr> fs := fs5 \<rparr>)
         | (None, fs5) \<Rightarrow>
        (let m1 = m \<lparr> active_sessions := AList.update sid s (active_sessions m) \<rparr>
         in case transitionState cb s INIT PREPARING m1 (w3 \<lparr> fs := fs5 \<rparr>) of
              (Some err, m2, w6) \<Rightarrow> (Inl err, m2, w6)
            | (None, m2, w6) \<Rightarrow>
                (Inr s, m2, logger Info (js ''Session created'')
                   [(js ''session_id'', LStr sid), (js ''job_id'', LStr jid),
                    (js ''work_dir'', LPath wd), (js ''output_dir'', LPath od)] w6))))"

text \<open>The loop over \<^verbatim>\<open>Object.entries(files)\<close>; the first failing write ends it.\<close>

fun write_files ::
  "env \<Rightarrow> ref \<Rightarrow> (jsstring \<times> jsstring) list \<Rightarrow> World \<Rightarrow> js_error option \<times> World" where
  "write_files e s [] w = (None, w)"
| "write_files e s ((filename, content) # rest) w =
     (case fs_writeFile e (path_join (work_dir (heap w s)) filename) content (fs w) of
        (Some err, fs') \<Rightarrow> (Some err, w \<lparr> fs := fs' \<rparr>)
      | (None, fs') \<Rightarrow> write_files e s rest (w \<lparr> fs := fs' \<rparr>))"

definition prepareSession ::
  "callback option \<Rightarrow> env \<Rightarrow> ref \<Rightarrow> (jsstring \<times> jsstring) list \<Rightarrow> Manager \<Rightarrow> World
     \<Rightarrow> js_error option \<times> Manager \<times> World" where
  "prepareSession cb e s files m w =
     (case transitionState cb s PREPARING PREPARING m w of
        (Some err, m1, w1) \<Rightarrow> (Some err, m1, w1)
      | (None, m1, w1) \<Rightarrow>
          (case write_files e s files w1 of
             (Some err, w2) \<Rightarrow> (Some err, m1, w2)
           | (None, w2) \<Rightarrow>
               (None, m1, logger Info (js ''Session prepared'')
                  [(js ''session_id'', LStr (session_id (heap w2 s))),
                   (js ''file_count'', LNum (of_nat (length files)))] w2)))"

record exec_result =
  stdout :: jsstring
  stderr :: jsstring
  exit_code :: int

definition executeCommand ::
  "callback option \<Rightarrow> env \<Rightarrow> ref \<Rightarrow> jsstring \<Rightarrow> Manager \<Rightarrow> World
     \<Rightarrow> (js_error + exec_result) \<times> Manager \<times> World" where
  "executeCommand cb e s cmd m w =
     (case transitionState cb s PREPARING EXECUTING m w of
        (Some err, m1, w1) \<Rightarrow> (Inl err, m1, w1)
      | (None, m1, w1) \<Rightarrow>
          (let (now, w2) = Date_now e w1;
               w3 = set_session s (\<lambda>x. x \<lparr> started_at := Some now \<rparr>) w2;
               w4 = logger Info (js ''Executing command in session'')
                      [(js ''session_id'', LStr (session_id (heap w3 s))),
                       (js ''command'', LStr cmd)] w3
           in case import_fault e of
                Some msg \<Rightarrow> (Inl (Fault msg), m1, w4)
              | None \<Rightarrow>
             (case execSync e cmd (work_dir (heap w4 s)) (fs w4) of
                (ExecOk out, fs5) \<Rightarrow>
                  (Inr \<lparr> stdout = out, stderr = [], exit_code = 0 \<rparr>, m1,
                   logger Info (js ''Command executed successfully'')
                     [(js ''session_id'', LStr (session_id (heap w4 s))),
                      (js ''exit_code'', LNum 0)] (w4 \<lparr> fs := fs5 \<rparr>))
              | (ExecErr status out err msg, fs5) \<Rightarrow>
                  (let code = (case status of None \<Rightarrow> -1 | Some c \<Rightarrow> if c = 0 then -1 else c)
                   in (Inr \<lparr> stdout = nullish out [], stderr = nullish err [], exit_code = code \<rparr>, m1,
                       logger Error (js ''Command execution failed'')
                         [(js ''session_id'', LStr (session_id (heap w4 s))),
                          (js ''exit_code'', LNum (of_int code)), (js ''error'', LStr msg)]
                         (w4 \<lparr> fs := fs5 \<rparr>))))))"

definition collectArtifacts ::
  "callback option \<Rightarrow> env \<Rightarrow> ref \<Rightarrow> Manager \<Rightarrow> World
     \<Rightarrow> (js_error + jsstring list) \<times> Manager \<times> World" where
  "collectArtifacts cb e s m w =
     (case transitionState cb s EXECUTING COLLECTING m w of
        (Some err, m1, w1) \<Rightarrow> (Inl err, m1, w1)
      | (None, m1, w1) \<Rightarrow>
          (case fs_readdir e (output_dir (heap w1 s)) (fs w1) of
             Inr entries \<Rightarrow>
               (Inr entries, m1, logger Info (js ''Artifacts collected'')
                  [(js ''session_id'', LStr (session_id (heap w1 s))),
                   (js ''artifact_count'', LNum (of_nat (length entries)))] w1)
           | Inl err \<Rightarrow>
               (Inr [], m1, logger Warn (js ''No artifacts found or error collecting'')
                  [(js ''session_id'', LStr (session_id (heap w1 s))),
                   (js ''error'', LStr (render e err))] w1)))"

text \<open>The \<^verbatim>\<open>try\<close> block of \<^verbatim>\<open>destroySession\<close>: three deletions, then the registry, then the log.\<close>

definition destroy_try ::
  "env \<Rightarrow> ref \<Rightarrow> Manager \<Rightarrow> World \<Rightarrow> js_error option \<times> Manager \<times> World" where
  "destroy_try e s m w =
     (case fs_rm e (work_dir (heap w s)) (fs w) of
        (Some err, fs1) \<Rightarrow> (Some err, m, w \<lparr> fs := fs1 \<rparr>)
      | (None, fs1) \<Rightarrow>
     (case fs_rm e (output_dir (heap w s)) fs1 of
        (Some err, fs2) \<Rightarrow> (Some err, m, w \<lparr> fs := fs2 \<rparr>)
      | (None, fs2) \<Rightarrow>
     (case fs_rm e (dirname (work_dir (heap w s))) fs2 of
        (Some err, fs3) \<Rightarrow> (Some err, m, w \<lparr> fs := fs3 \<rparr>)
      | (None, fs3) \<Rightarrow>
          (None,
           m \<lparr> active_sessions := AList.delete (session_id (heap w s)) (active_sessions m) \<rparr>,
           logger Info (js ''Session destroyed'')
             [(js ''session_id'', LStr (session_id (heap w s))),
              (js ''job_id'', LStr (job_id (heap w s)))] (w \<lparr> fs := fs3 \<rparr>)))))"

definition destroySession ::
  "callback option \<Rightarrow> env \<Rightarrow> ref \<Rightarrow> Manager \<Rightarrow> World \<Rightarrow> js_error option \<times> Manager \<times> World" where
  "destroySession cb e s m w =
     (if state (heap w s) = DESTROYED then (None, m, w)
      else
        case transitionState cb s (state (heap w s)) DESTROYING m w of
          (Some err, m1, w1) \<Rightarrow> (Some err, m1, w1)
        | (None, m1, w1) \<Rightarrow>
            (case destroy_try e s m1 w1 of
               (None, m2, w2) \<Rightarrow>
                 (None, m2, set_session s (\<lambda>x. x \<lparr> state := DESTROYED \<rparr>) w2)
             | (Some err, m2, w2) \<Rightarrow>
                 (let w3 = logger Error (js ''Error destroying session'')
                             [(js ''session_id'', LStr (session_id (heap w2 s))),
                              (js ''error'', LStr (render e err))] w2;
                      w4 = set_session s (\<lambda>x. x \<lparr> error := Some (render e err) \<rparr>) w3
                  in (None, m2, set_session s (\<lambda>x. x \<lparr> state := DESTROYED \<rparr>) w4))))"

definition destroySessionSafe ::
  "callback option \<Rightarrow> env \<Rightarrow> ref \<Rightarrow> Manager \<Rightarrow> World \<Rightarrow> js_error option \<times> Manager \<times> World" where
  "destroySessionSafe cb e s m w =
     (case destroySession cb e s m w of
        (None, m1, w1) \<Rightarrow> (None, m1, w1)
      | (Some err, m1, w1) \<Rightarrow>
          (let w2 = logger Error (js ''Safe destroy failed'')
                      [(js ''session_id'', LStr (session_id (heap w1 s))),
                       (js ''error'', LStr (render e err))] w1
           in (None, m1, set_session s (\<lambda>x. x \<lparr> state := DESTROYED \<rparr>) w2)))"

definition getSession :: "Manager \<Rightarrow> jsstring \<Rightarrow> ref option" where
  "getSession m sid = map_of (active_sessions m) sid"

subsection \<open>runSessionLifecycle\<close>

record WorkerJobInput =
  in_job_id :: jsstring
  command :: jsstring
  files :: "(jsstring \<times> jsstring) list"

record lifecycle_result = exec_result +
  session :: ref
  duration_ms :: number

text \<open>The \<^verbatim>\<open>try\<close> block: prepare, execute, collect, return.\<close>

definition lifecycle_body ::
  "env \<Rightarrow> ref \<Rightarrow> WorkerJobInput \<Rightarrow> Manager \<Rightarrow> World
     \<Rightarrow> (js_error + lifecycle_result) \<times> Manager \<times> World" where
  "lifecycle_body e s input m w =
     (case prepareSession None e s (files input) m w of
        (Some err, m1, w1) \<Rightarrow> (Inl err, m1, w1)
      | (None, m1, w1) \<Rightarrow>
     (let (start_time, w2) = Date_now e w1
      in case executeCommand None e s (command input) m1 w2 of
           (Inl err, m2, w3) \<Rightarrow> (Inl err, m2, w3)
         | (Inr res, m2, w3) \<Rightarrow>
     (let (end_time, w4) = Date_now e w3
      in case collectArtifacts None e s m2 w4 of
           (Inl err, m3, w5) \<Rightarrow> (Inl err, m3, w5)
         | (Inr artifacts, m3, w5) \<Rightarrow>
             (Inr \<lparr> stdout = stdout res, stderr = stderr res, exit_code = exit_code res,
                    session = s, duration_ms = end_time - start_time \<rparr>, m3, w5))))"

text \<open>
  A fresh manager without callbacks; \<^verbatim>\<open>initialize\<close> and \<^verbatim>\<open>createSession\<close> come before the
  \<^verbatim>\<open>try\<close>; the \<^verbatim>\<open>finally\<close> block runs \<open>destroySessionSafe\<close> and, unless that throws,
  keeps the outcome of the \<^verbatim>\<open>try\<close> block.
\<close>

definition runSessionLifecycle ::
  "env \<Rightarrow> WorkerJobInput \<Rightarrow> SessionOptions \<Rightarrow> World \<Rightarrow> (js_error + lifecycle_result) \<times> World" where
  "runSessionLifecycle e input opts w =
     (let manager = new_manager (o_base_dir opts)
      in case initialize e manager w of
           (Some err, w1) \<Rightarrow> (Inl err, w1)
         | (None, w1) \<Rightarrow>
        (case createSession None e (in_job_id input) opts manager w1 of
           (Inl err, m2, w2) \<Rightarrow> (Inl err, w2)
         | (Inr s, m2, w2) \<Rightarrow>
        (case lifecycle_body e s input m2 w2 of
           (outcome, m3, w3) \<Rightarrow>
        (case destroySessionSafe None e s m3 w3 of
           (Some err, m4, w4) \<Rightarrow> (Inl err, w4)
         | (None, m4, w4) \<Rightarrow> (outcome, w4)))))"

text \<open>The target states of the state transitions that a log records, in order.\<close>

fun transition_target :: "log_entry \<Rightarrow> SessionState list" where
  "transition_target (lvl, ev, meta) =
     (if lvl = Info \<and> ev = js ''Session state transition''
      then (case map_of meta (js ''to'') of Some (LState t) \<Rightarrow> [t] | _ \<Rightarrow> [])
      else [])"

definition transitions :: "log_entry list \<Rightarrow> SessionState list" where
  "transitions l = concat (map transition_target l)"

text \<open>The first of the three deletions of \<open>destroySession\<close> that the environment lets fail.\<close>

definition first_rm_fault :: "env \<Rightarrow> SessionContext \<Rightarrow> jsstring option" where
  "first_rm_fault e x =
     (case rm_fault e (work_dir x) of
        Some msg \<Rightarrow> Some msg
      | None \<Rightarrow>
          (case rm_fault e (output_dir x) of
             Some msg \<Rightarrow> Some msg
           | None \<Rightarrow> rm_fault e (dirname (work_dir x))))"

subsection \<open>A concrete run\<close>

text \<open>
  An environment in which no file operation fails and every command exits with 42, an
  empty world, and the manager and world right after \<open>createSession\<close> there. In
  \<open>faulty_env\<close> the deletion of the session's work directory fails.
\<close>

definition example_env :: env where
  "example_env =
     \<lparr> mkdir_fault = (\<lambda>p. None), write_fault = (\<lambda>p. None), rm_fault = (\<lambda>p. None),
       readdir_fault = (\<lambda>p. None), import_fault = None,
       execSync = (\<lambda>cmd cwd fs. (ExecErr (Some 42) None None (js ''Command failed''), fs)),
       uuidv4 = (\<lambda>n. js ''u1''), clock = (\<lambda>n. of_nat n),
       render = (\<lambda>err. case err of Fault msg \<Rightarrow> msg | _ \<Rightarrow> js ''Error'') \<rparr>"

definition blank_session :: SessionContext where
  "blank_session =
     \<lparr> session_id = [], job_id = [], state = INIT, work_dir = [], output_dir = [],
       config_path = [], created_at = 0, started_at = None, finished_at = None, error = None \<rparr>"

definition empty_world :: World where
  "empty_world = \<lparr> fs = [], heap = (\<lambda>r. blank_session), next_ref = 0, log = [], ticks = 0, uuids = 0 \<rparr>"

definition example_input :: WorkerJobInput where
  "example_input = \<lparr> in_job_id = js ''job-1'', command = js ''bash -c 'exit 42' '',
       files = [(js ''task.json'', js ''{}'')] \<rparr>"

definition no_options :: SessionOptions where
  "no_options = \<lparr> o_base_dir = None, work_dir_name = None, output_dir_name = None \<rparr>"

definition created :: "(js_error + ref) \<times> Manager \<times> World" where
  "created = createSession None example_env (js ''job-1'') no_options (new_manager None)
     (snd (initialize example_env (new_manager None) empty_world))"

definition created_manager :: Manager where
  "created_manager = fst (snd created)"

definition created_world :: World where
  "created_world = snd (snd created)"

definition example_work_dir :: path where
  "example_work_dir = [js ''opt'', js ''opencode'', js ''sessions'', js ''session-u1'', js ''work'']"

definition example_output_dir :: path where
  "example_output_dir = [js ''opt'', js ''opencode'', js ''sessions'', js ''session-u1'', js ''output'']"

definition faulty_env :: env where
  "faulty_env = example_env \<lparr> rm_fault := (\<lambda>p. if p = example_work_dir then Some (js ''EACCES'') else None) \<rparr>"

section \<open>The remote executor (SSHWorkerExecutor)\<close>

subsection \<open>parseMemory\<close>

text \<open>
  \<^verbatim>\<open>memStr.match(/^(\d+)(GB|MB|KB)?$/i)\<close>: one or more ASCII digits, then nothing or a
  two-letter unit compared without regard to case, up to the end of the string. The
  digits cannot be split differently, so the match is the longest run of digits and the
  rest. \<open>None\<close> is \<^verbatim>\<open>null\<close>; otherwise the two groups.
\<close>

definition is_digit :: "jschar \<Rightarrow> bool" where
  "is_digit c = (48 \<le> c \<and> c \<le> 57)"

definition ascii_upper :: "jschar \<Rightarrow> jschar" where
  "ascii_upper c = (if 97 \<le> c \<and> c \<le> 122 then c - 32 else c)"

definition toUpperCase :: "jsstring \<Rightarrow> jsstring" where
  "toUpperCase s = map ascii_upper s"

definition match_memory :: "jsstring \<Rightarrow> (jsstring \<times> jsstring option) option" where
  "match_memory s =
     (let ds = takeWhile is_digit s; rest = dropWhile is_digit s
      in if ds = [] then None
         else if rest = [] then Some (ds, None)
         else if toUpperCase rest \<in> {js ''GB'', js ''MB'', js ''KB''} then Some (ds, Some rest)
         else None)"

text \<open>
  \<^verbatim>\<open>parseInt(digits, 10)\<close> on a string of digits. The source's numbers are doubles; the
  natural number here is the value of \<^verbatim>\<open>parseInt\<close>, and of the arithmetic of
  \<open>parseMemory\<close> on it, as long as the digits denote less than \<open>2 ^ 53\<close>.
\<close>

definition parseInt10 :: "jsstring \<Rightarrow> nat" where
  "parseInt10 ds = foldl (\<lambda>acc c. 10 * acc + (c - 48)) 0 ds"

definition parseMemory :: "jsstring \<Rightarrow> nat" where
  "parseMemory memStr =
     (case match_memory memStr of
        None \<Rightarrow> 2048
      | Some (ds, u) \<Rightarrow>
          (let v = parseInt10 ds;
               unit = toUpperCase (case u of None \<Rightarrow> js ''MB'' | Some x \<Rightarrow> if x = [] then js ''MB'' else x)
           in if unit = js ''GB'' then v * 1024
              else if unit = js ''KB'' then (v + 1023) div 1024
              else v))"

text \<open>The strings the claim names: digits, then nothing or exactly \<^verbatim>\<open>GB\<close>, \<^verbatim>\<open>MB\<close> or \<^verbatim>\<open>KB\<close>.\<close>

definition digits_with_unit :: "jsstring set \<Rightarrow> jsstring \<Rightarrow> bool" where
  "digits_with_unit units s =
     (takeWhile is_digit s \<noteq> [] \<and> (dropWhile is_digit s = [] \<or> dropWhile is_digit s \<in> units))"

subsection \<open>runJob\<close>

text \<open>
  What the remote side does with one \<^verbatim>\<open>ssh\<close> call: it closes with output and an exit
  code (\<^verbatim>\<open>null\<close> when a signal ended it) after some milliseconds, it never closes, or
  the process cannot be spawned. \<open>sshExec\<close> resolves (\<open>Inr\<close>), rejects (\<open>Inl\<close>), or never
  settles (\<open>None\<close>); with a timeout, a call that has not closed by then is killed with
  \<^verbatim>\<open>SIGKILL\<close> and rejected.
\<close>

datatype remote_run = Exits jsstring jsstring "int option" nat | Never | SpawnError jsstring

datatype ssh_error = SpawnFailed jsstring | TimedOut nat

definition sshExec :: "remote_run \<Rightarrow> nat option \<Rightarrow> (ssh_error + exec_result) option" where
  "sshExec run tmo =
     (let timer = (case tmo of None \<Rightarrow> None | Some t \<Rightarrow> if t = 0 then None else Some t)
      in case run of
           SpawnError msg \<Rightarrow> Some (Inl (SpawnFailed msg))
         | Exits out err code d \<Rightarrow>
             (case timer of
                Some t \<Rightarrow>
                  if d < t
                  then Some (Inr \<lparr> stdout = out, stderr = err, exit_code = nullish code (-1) \<rparr>)
                  else Some (Inl (TimedOut t))
              | None \<Rightarrow> Some (Inr \<lparr> stdout = out, stderr = err, exit_code = nullish code (-1) \<rparr>))
         | Never \<Rightarrow> (case timer of Some t \<Rightarrow> Some (Inl (TimedOut t)) | None \<Rightarrow> None))"

datatype ssh_call = Mkdir | WriteFile jsstring | RunCommand | ListArtifacts | Cleanup

datatype job_status = Finished | Failed | Timeout

record JobLimits =
  lim_cpu :: number
  lim_memory :: jsstring
  lim_timeout :: nat

record JobInput = WorkerJobInput +
  in_limits :: JobLimits

record JobResult = exec_result +
  res_job_id :: jsstring
  status :: job_status
  artifacts :: "jsstring list"
  res_duration_ms :: number
  worker_id :: jsstring

text \<open>
  The executor's surroundings: what each call does on the remote side, the two readings
  of the clock, the worker's id and \<^verbatim>\<open>String(error)\<close>.
\<close>

record ssh_env =
  remote :: "ssh_call \<Rightarrow> remote_run"
  start_ms :: number
  end_ms :: number
  the_worker_id :: jsstring
  error_text :: "ssh_error \<Rightarrow> jsstring"

text \<open>The loop writing the input files; the first rejected call ends it.\<close>

fun ssh_write_files :: "ssh_env \<Rightarrow> (jsstring \<times> jsstring) list \<Rightarrow> (ssh_error + unit) option" where
  "ssh_write_files e [] = Some (Inr ())"
| "ssh_write_files e ((filename, content) # rest) =
     (case sshExec (remote e (WriteFile filename)) None of
        None \<Rightarrow> None
      | Some (Inl err) \<Rightarrow> Some (Inl err)
      | Some (Inr r) \<Rightarrow> ssh_write_files e rest)"

text \<open>The \<^verbatim>\<open>try\<close> block of \<open>runJob\<close>.\<close>

definition runJob_try :: "ssh_env \<Rightarrow> JobInput \<Rightarrow> (ssh_error + JobResult) option" where
  "runJob_try e input =
     (case sshExec (remote e Mkdir) None of
        None \<Rightarrow> None
      | Some (Inl err) \<Rightarrow> Some (Inl err)
      | Some (Inr r0) \<Rightarrow>
     (case ssh_write_files e (files input) of
        None \<Rightarrow> None
      | Some (Inl err) \<Rightarrow> Some (Inl err)
      | Some (Inr u) \<Rightarrow>
     (case sshExec (remote e RunCommand) (Some (lim_timeout (in_limits input) + 5000)) of
        None \<Rightarrow> None
      | Some (Inl err) \<Rightarrow> Some (Inl err)
      | Some (Inr result) \<Rightarrow>
     (case sshExec (remote e ListArtifacts) None of
        None \<Rightarrow> None
      | Some (Inl err) \<Rightarrow> Some (Inl err)
      | Some (Inr r1) \<Rightarrow>
     (case sshExec (remote e Cleanup) None of
        None \<Rightarrow> None
      | Some (Inl err) \<Rightarrow> Some (Inl err)
      | Some (Inr r2) \<Rightarrow>
          Some (Inr \<lparr> stdout = stdout result, stderr = stderr result, exit_code = exit_code result,
                      res_job_id = in_job_id input,
                      status = (if exit_code result = 0 then Finished else Failed),
                      artifacts = [],
                      res_duration_ms = end_ms e - start_ms e,
                      worker_id = the_worker_id e \<rparr>))))))"

text \<open>
  \<open>runJob\<close>: the \<^verbatim>\<open>catch\<close> block cleans up (a rejected cleanup is ignored, one that never
  settles never lets \<open>runJob\<close> return) and reports \<^verbatim>\<open>"failed"\<close> with exit code \<open>-1\<close>.
\<close>

definition runJob :: "ssh_env \<Rightarrow> JobInput \<Rightarrow> JobResult option" where
  "runJob e input =
     (case runJob_try e input of
        None \<Rightarrow> None
      | Some (Inr res) \<Rightarrow> Some res
      | Some (Inl err) \<Rightarrow>
          (case sshExec (remote e Cleanup) None of
             None \<Rightarrow> None
           | Some c \<Rightarrow>
               Some \<lparr> stdout = [], stderr = error_text e err, exit_code = -1,
                      res_job_id = in_job_id input, status = Failed, artifacts = [],
                      res_duration_ms = end_ms e - start_ms e,
                      worker_id = the_worker_id e \<rparr>))"

text \<open>
  A job that sleeps ten seconds under a limit of 500 ms: the remote command closes after
  10000 ms, every other call closes at once with exit code 0.
\<close>

definition sleep_job :: JobInput where
  "sleep_job = \<lparr> in_job_id = js ''job-2'', command = js ''sleep 10'', files = [],
       in_limits = \<lparr> lim_cpu = 1, lim_memory = js ''512MB'', lim_timeout = 500 \<rparr> \<rparr>"

definition sleep_env :: ssh_env where
  "sleep_env =
     \<lparr> remote = (\<lambda>c. case c of RunCommand \<Rightarrow> Exits [] [] (Some 0) 10000 | _ \<Rightarrow> Exits [] [] (Some 0) 1),
       start_ms = 0, end_ms = 5600, the_worker_id = js ''docker-worker-1'',
       error_text = (\<lambda>err. js ''Error: Command timed out'') \<rparr>"

section \<open>The command validator\<close>

subsection \<open>Regular expressions of the source\<close>

text \<open>
  \<^verbatim>\<open>\s\<close> and \<^verbatim>\<open>trim\<close> share one set of code units: white space and line terminators.
  The dot matches everything but the line terminators.
\<close>

definition is_space :: "jschar \<Rightarrow> bool" where
  "is_space c = (c \<in> set [9, 10, 11, 12, 13, 32, 160, 5760, 8232, 8233, 8239, 8287, 12288, 65279]
     \<or> (8192 \<le> c \<and> c \<le> 8202))"

definition is_line_terminator :: "jschar \<Rightarrow> bool" where
  "is_line_terminator c = (c \<in> set [10, 13, 8232, 8233])"

datatype cclass = Chr jschar | NotChr jschar | Space | NonSpace | Digit | Dot

fun accepts :: "cclass \<Rightarrow> jschar \<Rightarrow> bool" where
  "accepts (Chr x) c = (c = x)"
| "accepts (NotChr x) c = (c \<noteq> x)"
| "accepts Space c = is_space c"
| "accepts NonSpace c = (\<not> is_space c)"
| "accepts Digit c = is_digit c"
| "accepts Dot c = (\<not> is_line_terminator c)"

datatype regex = Nothing | Empty | Atom cclass | Seq regex regex | Alt regex regex | Star regex

definition plus :: "regex \<Rightarrow> regex" where
  "plus r = Seq r (Star r)"

definition opt :: "regex \<Rightarrow> regex" where
  "opt r = Alt r Empty"

fun lit :: "string \<Rightarrow> regex" where
  "lit [] = Empty"
| "lit [c] = Atom (Chr (of_char c))"
| "lit (c # cs) = Seq (Atom (Chr (of_char c))) (lit cs)"

fun seqs :: "regex list \<Rightarrow> regex" where
  "seqs [] = Empty"
| "seqs [r] = r"
| "seqs (r # rs) = Seq r (seqs rs)"

fun alts :: "regex list \<Rightarrow> regex" where
  "alts [] = Nothing"
| "alts [r] = r"
| "alts (r # rs) = Alt r (alts rs)"

text \<open>
  Matching by derivatives: \<open>deriv c r\<close> matches what \<open>r\<close> matches after a first \<open>c\<close>.
  \<open>alt\<close> and \<open>seq\<close> build the sum and the product, dropping what cannot match.
\<close>

fun nullable :: "regex \<Rightarrow> bool" where
  "nullable Nothing = False"
| "nullable Empty = True"
| "nullable (Atom a) = False"
| "nullable (Seq r s) = (nullable r \<and> nullable s)"
| "nullable (Alt r s) = (nullable r \<or> nullable s)"
| "nullable (Star r) = True"

fun alt :: "regex \<Rightarrow> regex \<Rightarrow> regex" where
  "alt Nothing s = s"
| "alt r Nothing = r"
| "alt r s = Alt r s"

fun seq :: "regex \<Rightarrow> regex \<Rightarrow> regex" where
  "seq Nothing s = Nothing"
| "seq r Nothing = Nothing"
| "seq Empty s = s"
| "seq r s = Seq r s"

fun deriv :: "jschar \<Rightarrow> regex \<Rightarrow> regex" where
  "deriv c Nothing = Nothing"
| "deriv c Empty = Nothing"
| "deriv c (Atom a) = (if accepts a c then Empty else Nothing)"
| "deriv c (Seq r s) =
     (if nullable r then alt (seq (deriv c r) s) (deriv c s) else seq (deriv c r) s)"
| "deriv c (Alt r s) = alt (deriv c r) (deriv c s)"
| "deriv c (Star r) = seq (deriv c r) (Star r)"

text \<open>Does \<open>r\<close> match some prefix of the string?\<close>

fun matches_prefix :: "regex \<Rightarrow> jsstring \<Rightarrow> bool" where
  "matches_prefix r [] = nullable r"
| "matches_prefix r (c # cs) = (nullable r \<or> matches_prefix (deriv c r) cs)"

text \<open>
  A pattern of the source: whether it starts with \<^verbatim>\<open>^\<close>, its body, and its text (what
  \<^verbatim>\<open>`${pattern}`\<close> gives). \<^verbatim>\<open>pattern.test(s)\<close> tries the start positions from left to
  right, only the first one when the pattern is anchored. No pattern here has a flag, a
  group reference or a look-around, so whether there is a match depends only on the
  strings the body matches.
\<close>

record pattern =
  anchored :: bool
  body :: regex
  source :: jsstring

definition regex_test :: "pattern \<Rightarrow> jsstring \<Rightarrow> bool" where
  "regex_test p s =
     (if anchored p then matches_prefix (body p) s
      else list_ex (matches_prefix (body p)) (rev (suffixes s)))"

text \<open>The text of a pattern, with \<^verbatim>\<open>%\<close> written for the backslash.\<close>

definition src :: "string \<Rightarrow> jsstring" where
  "src s = map (\<lambda>c. if c = CHR ''%'' then 92 else of_char c) s"

definition unanchored :: "string \<Rightarrow> regex list \<Rightarrow> pattern" where
  "unanchored text rs = \<lparr> anchored = False, body = seqs rs, source = src text \<rparr>"

definition from_start :: "string \<Rightarrow> regex list \<Rightarrow> pattern" where
  "from_start text rs = \<lparr> anchored = True, body = seqs rs, source = src text \<rparr>"

subsection \<open>The lists\<close>

definition ALLOWED_COMMANDS :: "jsstring list" where
  "ALLOWED_COMMANDS = map js
     [''npx'', ''node'', ''npm'', ''bun'', ''pnpm'', ''yarn'', ''git'', ''bash'', ''sh'', ''cat'',
      ''ls'', ''mkdir'', ''rm'', ''cp'', ''mv'', ''chmod'', ''chown'', ''find'', ''grep'', ''sed'',
      ''awk'', ''jq'', ''curl'', ''wget'', ''tar'', ''unzip'', ''zip'', ''echo'', ''printf'',
      ''head'', ''tail'', ''wc'', ''sort'', ''uniq'', ''cut'', ''tr'', ''diff'', ''patch'', ''make'',
      ''cmake'', ''cargo'', ''rustc'', ''go'', ''python'', ''python3'', ''pip'', ''pip3'', ''uv'',
      ''poetry'', ''opencode'', ''type'', ''which'', ''whoami'', ''id'', ''env'', ''printenv'',
      ''date'', ''sleep'', ''timeout'', ''pwd'', ''hostname'', ''uname'']"

definition subcommand :: "string \<Rightarrow> string list \<Rightarrow> regex list" where
  "subcommand cmd subs = [lit cmd, plus (Atom Space), alts (map lit subs), Star (Atom Space)]"

definition ALLOWED_PATTERNS :: "pattern list" where
  "ALLOWED_PATTERNS =
     [from_start ''/^npx%s+%S+/'' [lit ''npx'', plus (Atom Space), plus (Atom NonSpace)],
      from_start ''/^node%s+%S+/'' [lit ''node'', plus (Atom Space), plus (Atom NonSpace)],
      from_start ''/^npm%s+(run|install|test|build|start|dev)%s*/''
        (subcommand ''npm'' [''run'', ''install'', ''test'', ''build'', ''start'', ''dev'']),
      from_start ''/^bun%s+(run|install|test|build|start|dev)%s*/''
        (subcommand ''bun'' [''run'', ''install'', ''test'', ''build'', ''start'', ''dev'']),
      from_start ''/^pnpm%s+(run|install|test|build|start|dev)%s*/''
        (subcommand ''pnpm'' [''run'', ''install'', ''test'', ''build'', ''start'', ''dev'']),
      from_start
        ''/^git%s+(clone|pull|push|checkout|checkout%s+-b|add|commit|status|log|branch|merge|fetch|remote)%s*/''
        [lit ''git'', plus (Atom Space),
         alts [lit ''clone'', lit ''pull'', lit ''push'', lit ''checkout'',
               seqs [lit ''checkout'', plus (Atom Space), lit ''-b''],
               lit ''add'', lit ''commit'', lit ''status'', lit ''log'', lit ''branch'',
               lit ''merge'', lit ''fetch'', lit ''remote''],
         Star (Atom Space)],
      from_start ''/^cargo%s+(build|test|run|check|doc|clippy|fmt)%s*/''
        (subcommand ''cargo'' [''build'', ''test'', ''run'', ''check'', ''doc'', ''clippy'', ''fmt'']),
      from_start ''/^go%s+(run|build|test|get|mod|vet|fmt)%s*/''
        (subcommand ''go'' [''run'', ''build'', ''test'', ''get'', ''mod'', ''vet'', ''fmt'']),
      from_start ''/^python3?%s+.*%.py/''
        [lit ''python'', opt (lit ''3''), plus (Atom Space), Star (Atom Dot), lit ''.py''],
      from_start ''/^make%s+/'' [lit ''make'', plus (Atom Space)],
      from_start ''/^cmake%s+/'' [lit ''cmake'', plus (Atom Space)],
      from_start ''/^bash%s+/'' [lit ''bash'', plus (Atom Space)],
      from_start ''/^bash%s+-c%s+/'' [lit ''bash'', plus (Atom Space), lit ''-c'', plus (Atom Space)],
      from_start ''/^sh%s+/'' [lit ''sh'', plus (Atom Space)],
      from_start ''/^sh%s+-c%s+/'' [lit ''sh'', plus (Atom Space), lit ''-c'', plus (Atom Space)],
      from_start ''/^cat%s+.*/'' [lit ''cat'', plus (Atom Space), Star (Atom Dot)],
      from_start ''/^echo%s+.*/'' [lit ''echo'', plus (Atom Space), Star (Atom Dot)],
      from_start ''/^sleep%s+%d+/'' [lit ''sleep'', plus (Atom Space), plus (Atom Digit)],
      from_start ''/^timeout%s+%d+%s+/''
        [lit ''timeout'', plus (Atom Space), plus (Atom Digit), plus (Atom Space)]]"

definition rm_rf_root :: pattern where
  "rm_rf_root = unanchored ''/rm%s+-rf%s+%//''
     [lit ''rm'', plus (Atom Space), lit ''-rf'', plus (Atom Space), lit ''/'']"

definition DANGEROUS_PATTERNS :: "pattern list" where
  "DANGEROUS_PATTERNS =
     [rm_rf_root, rm_rf_root, rm_rf_root,
      unanchored ''/%/%s*%|%s*sh/''
        [lit ''/'', Star (Atom Space), lit ''|'', Star (Atom Space), lit ''sh''],
      unanchored ''/%>%s*%/dev%/null/'' [lit ''>'', Star (Atom Space), lit ''/dev/null''],
      unanchored ''/%$%(/'' [lit ''$(''],
      unanchored ''/`[^`]+`/'' [lit ''`'', plus (Atom (NotChr 96)), lit ''`''],
      unanchored ''/chmod%s+777/'' [lit ''chmod'', plus (Atom Space), lit ''777''],
      unanchored ''/chmod%s+4755/'' [lit ''chmod'', plus (Atom Space), lit ''4755''],
      unanchored ''/wget%s+.*%|%s*sh/''
        [lit ''wget'', plus (Atom Space), Star (Atom Dot), lit ''|'', Star (Atom Space), lit ''sh''],
      unanchored ''/curl%s+.*%|%s*sh/''
        [lit ''curl'', plus (Atom Space), Star (Atom Dot), lit ''|'', Star (Atom Space), lit ''sh'']]"

subsection \<open>validateCommand and sanitizeCommand\<close>

definition trim :: "jsstring \<Rightarrow> jsstring" where
  "trim s = rev (dropWhile is_space (rev (dropWhile is_space s)))"

text \<open>
  \<^verbatim>\<open>s.split(/\s+/)\<close>: the pieces between the maximal runs of white space; a run at either
  end leaves an empty piece there, and the empty string gives one empty piece.
\<close>

function split_ws :: "jsstring \<Rightarrow> jsstring list" where
  "split_ws s =
     (let piece = takeWhile (\<lambda>c. \<not> is_space c) s;
          rest = dropWhile (\<lambda>c. \<not> is_space c) s
      in if rest = [] then [piece] else piece # split_ws (dropWhile is_space rest))"
  by pat_completeness auto
termination
proof (relation "measure length")
  show "wf (measure length)" by simp
next
  fix s piece rest :: jsstring
  assume rest: "rest = dropWhile (\<lambda>c. \<not> is_space c) s" and "rest \<noteq> []"
  from \<open>rest \<noteq> []\<close> obtain a t where at: "rest = a # t"
    using list.exhaust by blast
  from rest \<open>rest \<noteq> []\<close> have "\<not> \<not> is_space (hd rest)"
    using hd_dropWhile [of "\<lambda>c. \<not> is_space c" s] by simp
  with at have "dropWhile is_space rest = dropWhile is_space t"
    by simp
  moreover have "length (dropWhile is_space t) \<le> length t"
    by (rule length_dropWhile_le)
  moreover have "length rest \<le> length s"
    unfolding rest by (rule length_dropWhile_le)
  ultimately show "(dropWhile is_space rest, s) \<in> measure length"
    using at by simp
qed

record CommandValidationResult =
  allowed :: bool
  reason :: "jsstring option"
  sanitized_command :: "jsstring option"

definition base_command :: "jsstring \<Rightarrow> jsstring" where
  "base_command cmd = hd (split_ws (trim cmd))"

definition validateCommand :: "jsstring \<Rightarrow> CommandValidationResult" where
  "validateCommand cmd =
     (let trimmed = trim cmd
      in if trimmed = [] then
           \<lparr> allowed = False, reason = Some (js ''Empty command''), sanitized_command = None \<rparr>
         else
           (case List.find (\<lambda>p. regex_test p trimmed) DANGEROUS_PATTERNS of
              Some p \<Rightarrow>
                \<lparr> allowed = False, reason = Some (js ''Dangerous pattern detected: '' @ source p),
                  sanitized_command = None \<rparr>
            | None \<Rightarrow>
                (let base = hd (split_ws trimmed)
                 in if base \<in> set ALLOWED_COMMANDS then
                      \<lparr> allowed = True, reason = None, sanitized_command = Some trimmed \<rparr>
                    else if list_ex (\<lambda>p. regex_test p trimmed) ALLOWED_PATTERNS then
                      \<lparr> allowed = True, reason = None, sanitized_command = Some trimmed \<rparr>
                    else
                      \<lparr> allowed = False, reason = Some (js ''Command not in allowlist: '' @ base),
                        sanitized_command = None \<rparr>)))"

text \<open>\<^verbatim>\<open>part.replace(/[;&|`$(){}[\]\\]/g, "")\<close> drops these code units.\<close>

definition is_meta :: "jschar \<Rightarrow> bool" where
  "is_meta c = (c \<in> set (js '';&|`$(){}[]'') \<or> c = 92)"

definition sanitizeCommand :: "jsstring \<Rightarrow> jsstring" where
  "sanitizeCommand cmd =
     join_with (js '' '')
       (map (\<lambda>part. if take 1 part = js ''-'' then filter (\<lambda>c. \<not> is_meta c) part else part)
            (split_ws (trim cmd)))"

subsection \<open>What the patterns mean\<close>

text \<open>
  The strings a regular expression matches as a whole; the matcher above is proved to
  find exactly their occurrences. \<open>starts_solid\<close> and \<open>ends_solid\<close> are sufficient
  syntactic checks that every matched string is non-empty and begins, respectively
  ends, with a code unit that is not white space.
\<close>

inductive_set star :: "jsstring set \<Rightarrow> jsstring set" for L :: "jsstring set" where
  star_nil: "[] \<in> star L"
| star_step: "u \<in> L \<Longrightarrow> v \<in> star L \<Longrightarrow> u @ v \<in> star L"

fun words :: "regex \<Rightarrow> jsstring set" where
  "words Nothing = {}"
| "words Empty = {[]}"
| "words (Atom a) = {[c] | c. accepts a c}"
| "words (Seq r s) = {u @ v | u v. u \<in> words r \<and> v \<in> words s}"
| "words (Alt r s) = words r \<union> words s"
| "words (Star r) = star (words r)"

fun starts_solid :: "regex \<Rightarrow> bool" where
  "starts_solid Nothing = True"
| "starts_solid Empty = False"
| "starts_solid (Atom a) = (case a of Chr x \<Rightarrow> \<not> is_space x | NonSpace \<Rightarrow> True | Digit \<Rightarrow> True | _ \<Rightarrow> False)"
| "starts_solid (Seq r s) = starts_solid r"
| "starts_solid (Alt r s) = (starts_solid r \<and> starts_solid s)"
| "starts_solid (Star r) = False"

fun ends_solid :: "regex \<Rightarrow> bool" where
  "ends_solid Nothing = True"
| "ends_solid Empty = False"
| "ends_solid (Atom a) = (case a of Chr x \<Rightarrow> \<not> is_space x | NonSpace \<Rightarrow> True | Digit \<Rightarrow> True | _ \<Rightarrow> False)"
| "ends_solid (Seq r s) = ends_solid s"
| "ends_solid (Alt r s) = (ends_solid r \<and> ends_solid s)"
| "ends_solid (Star r) = False"


text \<open>
  For the anchored templates: \<open>first_tokens r\<close> lists the strings without white space
  that a match of \<open>r\<close> can begin with before its first white space, when every match
  has that form (\<open>solid_words\<close>: all matches, when they are finitely many and free of
  white space; \<open>starts_space\<close>: every match begins with white space).
\<close>

fun solid_words :: "regex \<Rightarrow> jsstring list option" where
  "solid_words Nothing = Some []"
| "solid_words Empty = Some [[]]"
| "solid_words (Atom a) = (case a of Chr x \<Rightarrow> if is_space x then None else Some [[x]] | _ \<Rightarrow> None)"
| "solid_words (Seq r s) =
     (case (solid_words r, solid_words s) of
        (Some us, Some vs) \<Rightarrow> Some (concat (map (\<lambda>u. map (\<lambda>v. u @ v) vs) us))
      | _ \<Rightarrow> None)"
| "solid_words (Alt r s) =
     (case (solid_words r, solid_words s) of (Some us, Some vs) \<Rightarrow> Some (us @ vs) | _ \<Rightarrow> None)"
| "solid_words (Star r) = None"

fun starts_space :: "regex \<Rightarrow> bool" where
  "starts_space Nothing = True"
| "starts_space Empty = False"
| "starts_space (Atom a) = (case a of Chr x \<Rightarrow> is_space x | Space \<Rightarrow> True | _ \<Rightarrow> False)"
| "starts_space (Seq r s) = starts_space r"
| "starts_space (Alt r s) = (starts_space r \<and> starts_space s)"
| "starts_space (Star r) = False"

fun first_tokens :: "regex \<Rightarrow> jsstring list option" where
  "first_tokens (Seq r s) =
     (if starts_space r then Some [[]]
      else case solid_words r of
             None \<Rightarrow> None
           | Some us \<Rightarrow>
               (case first_tokens s of
                  None \<Rightarrow> None
                | Some vs \<Rightarrow> Some (concat (map (\<lambda>u. map (\<lambda>v. u @ v) vs) us))))"
| "first_tokens (Alt r s) =
     (case (first_tokens r, first_tokens s) of (Some us, Some vs) \<Rightarrow> Some (us @ vs) | _ \<Rightarrow> None)"
| "first_tokens r = (if starts_space r then Some [[]] else None)"


section \<open>Properties of the resource governor\<close>

lemma killed_killProcess: "killed (gstate (killProcess fmt r v g))"
  by (simp add: killProcess_def stopMonitoring_def Let_def split: option.splits)

lemma kill_reason_killProcess:
  "\<not> killed (gstate g) \<Longrightarrow>
   kill_reason (gstate (killProcess fmt r v g)) = Some (reason_text fmt r v)"
  by (simp add: killProcess_def stopMonitoring_def Let_def split: option.splits)

lemma killProcess_when_killed: "killed (gstate g) \<Longrightarrow> killProcess fmt r v g = g"
  by (simp add: killProcess_def)

text \<open>
  Claim C4. A second \<open>killProcess\<close> with no reset in between changes nothing at all in
  the governor: \<open>killed\<close> stays true, and where the first call was the one that killed
  (the governor was not killed before it), \<open>kill_reason\<close> is the text made from the
  first reason and value, whatever the second reason and value are.
\<close>

theorem killProcess_twice_first_reason:
  "killProcess fmt r2 v2 (killProcess fmt r1 v1 g) = killProcess fmt r1 v1 g
   \<and> killed (gstate (killProcess fmt r2 v2 (killProcess fmt r1 v1 g)))
   \<and> (\<not> killed (gstate g) \<longrightarrow>
        kill_reason (gstate (killProcess fmt r2 v2 (killProcess fmt r1 v1 g)))
          = Some (reason_text fmt r1 v1))"
proof -
  have again: "killProcess fmt r2 v2 (killProcess fmt r1 v1 g) = killProcess fmt r1 v1 g"
    by (rule killProcess_when_killed) (rule killed_killProcess)
  show ?thesis
    unfolding again by (simp add: killed_killProcess kill_reason_killProcess)
qed

theorem killProcess_twice_first_reason_witness:
  "\<not> killed (gstate (startGovernance 0 4242 (createGovernor \<lparr> p_cpu = None, p_memory_mb = Some 128,
        p_timeout_ms = Some 1000, p_max_output_bytes = None \<rparr>)))
   \<and> kill_reason (gstate (killProcess (\<lambda>_. js ''1500'') (js ''memory_limit_exceeded'') (Some 200)
        (killProcess (\<lambda>_. js ''1500'') (js ''timeout'') (Some 1500)
          (startGovernance 0 4242 (createGovernor \<lparr> p_cpu = None, p_memory_mb = Some 128,
            p_timeout_ms = Some 1000, p_max_output_bytes = None \<rparr>)))))
       = Some (js ''timeout: 1500'')"
proof -
  let ?g = "startGovernance 0 4242 (createGovernor \<lparr> p_cpu = None, p_memory_mb = Some 128,
        p_timeout_ms = Some 1000, p_max_output_bytes = None \<rparr>)"
  have fresh: "\<not> killed (gstate ?g)"
    by (simp add: startGovernance_def)
  have "kill_reason (gstate (killProcess (\<lambda>_. js ''1500'') (js ''memory_limit_exceeded'') (Some 200)
          (killProcess (\<lambda>_. js ''1500'') (js ''timeout'') (Some 1500) ?g)))
        = Some (reason_text (\<lambda>_. js ''1500'') (js ''timeout'') (Some 1500))"
    using killProcess_twice_first_reason [of "\<lambda>_. js ''1500''" "js ''memory_limit_exceeded''"
        "Some 200" "js ''timeout''" "Some 1500" ?g] fresh
    by blast
  then show ?thesis
    using fresh by (simp add: reason_text_def js_def)
qed

text \<open>
  Claim C10. \<open>stop\<close> clears \<open>is_governed\<close> and \<open>killed\<close> and leaves \<open>kill_reason\<close>,
  \<open>memory_samples\<close> and \<open>output_bytes\<close> as they were. So a governor that had killed its
  process reports \<open>killed = False\<close> after \<open>stop\<close>, and a \<open>killProcess\<close> after that is
  not a no-op: it changes the governor, sets \<open>killed\<close> again and overwrites the reason.
\<close>

theorem stop_clears_killed_keeps_reason:
  "\<not> is_governed (gstate (stop g)) \<and> \<not> killed (gstate (stop g))
   \<and> kill_reason (gstate (stop g)) = kill_reason (gstate g)
   \<and> memory_samples (gstate (stop g)) = memory_samples (gstate g)
   \<and> output_bytes (gstate (stop g)) = output_bytes (gstate g)
   \<and> \<not> killed (gstate (stop (killProcess fmt r1 v1 g)))
   \<and> killProcess fmt r2 v2 (stop (killProcess fmt r1 v1 g)) \<noteq> stop (killProcess fmt r1 v1 g)
   \<and> killed (gstate (killProcess fmt r2 v2 (stop (killProcess fmt r1 v1 g))))
   \<and> kill_reason (gstate (killProcess fmt r2 v2 (stop (killProcess fmt r1 v1 g))))
        = Some (reason_text fmt r2 v2)"
proof -
  have frame: "\<not> is_governed (gstate (stop h)) \<and> \<not> killed (gstate (stop h))
      \<and> kill_reason (gstate (stop h)) = kill_reason (gstate h)
      \<and> memory_samples (gstate (stop h)) = memory_samples (gstate h)
      \<and> output_bytes (gstate (stop h)) = output_bytes (gstate h)" for h
    by (simp add: stop_def stopMonitoring_def Let_def)
  have live: "\<not> killed (gstate (stop (killProcess fmt r1 v1 g)))"
    using frame by blast
  have "killed (gstate (killProcess fmt r2 v2 (stop (killProcess fmt r1 v1 g))))"
    by (rule killed_killProcess)
  with live have changed:
    "killProcess fmt r2 v2 (stop (killProcess fmt r1 v1 g)) \<noteq> stop (killProcess fmt r1 v1 g)"
    by auto
  show ?thesis
    using frame [of g] live changed killed_killProcess kill_reason_killProcess [OF live]
    by blast
qed

section \<open>Properties of the session lifecycle\<close>

lemma transitions_append: "transitions (a @ b) = transitions a @ transitions b"
  by (simp add: transitions_def)

lemma transitionState_None:
  "transitionState None s from to m w = (r, m', w') \<Longrightarrow>
   r = None \<and> m' = m \<and> fs w' = fs w \<and> state (heap w' s) = to
   \<and> (\<exists>ext. log w' = log w @ ext \<and> transitions ext = [to])"
  by (auto simp: transitionState_def Let_def logger_def set_session_def transitions_def js_def)

lemma Date_now_frame:
  "Date_now e w = (t, w') \<Longrightarrow> log w' = log w \<and> heap w' = heap w \<and> fs w' = fs w"
  by (auto simp: Date_now_def)

lemma write_files_frame:
  "write_files e s fl w = (r, w') \<Longrightarrow> log w' = log w \<and> heap w' = heap w"
proof (induction fl arbitrary: w)
  case Nil
  then show ?case by simp
next
  case (Cons a fl)
  obtain fname content where a: "a = (fname, content)" by (cases a)
  show ?case
    using Cons.prems Cons.IH a
    by (auto split: prod.splits option.splits)
qed

lemma transitions_single [simp]:
  "ev \<noteq> js ''Session state transition'' \<Longrightarrow> transitions [(lvl, ev, meta)] = []"
  by (simp add: transitions_def)

lemma prepareSession_None:
  assumes "prepareSession None e s fl m w = (r, m', w')"
  shows "state (heap w' s) = PREPARING \<and> (\<exists>ext. log w' = log w @ ext \<and> transitions ext = [PREPARING])"
proof -
  obtain r1 m1 w1 where t: "transitionState None s PREPARING PREPARING m w = (r1, m1, w1)"
    by (metis prod_cases3)
  from transitionState_None [OF t] obtain ext where
    t': "r1 = None" "state (heap w1 s) = PREPARING" "log w1 = log w @ ext" "transitions ext = [PREPARING]"
    by blast
  obtain r2 w2 where f: "write_files e s fl w1 = (r2, w2)" by (metis surj_pair)
  from write_files_frame [OF f] have f': "log w2 = log w1" "heap w2 = heap w1" by auto
  show ?thesis
  proof (cases r2)
    case None
    with assms t t' f f' show ?thesis
      by (auto simp: prepareSession_def logger_def transitions_append js_def)
  next
    case (Some err)
    with assms t t' f f' show ?thesis
      by (auto simp: prepareSession_def)
  qed
qed

lemma executeCommand_None:
  assumes "executeCommand None e s c m w = (r, m', w')"
  shows "state (heap w' s) = EXECUTING
     \<and> (\<exists>ext. log w' = log w @ ext \<and> transitions ext = [EXECUTING])"
proof -
  obtain r1 m1 w1 where t: "transitionState None s PREPARING EXECUTING m w = (r1, m1, w1)"
    by (metis prod_cases3)
  from transitionState_None [OF t] obtain ext where
    t': "r1 = None" "state (heap w1 s) = EXECUTING" "log w1 = log w @ ext" "transitions ext = [EXECUTING]"
    by blast
  show ?thesis
    using assms t t'
    by (auto simp: executeCommand_def Date_now_def set_session_def logger_def Let_def
        transitions_def js_def split: prod.splits exec_outcome.splits option.splits)
qed

lemma collectArtifacts_None:
  assumes "collectArtifacts None e s m w = (r, m', w')"
  shows "(\<exists>res. r = Inr res) \<and> state (heap w' s) = COLLECTING
     \<and> (\<exists>ext. log w' = log w @ ext \<and> transitions ext = [COLLECTING])"
proof -
  obtain r1 m1 w1 where t: "transitionState None s EXECUTING COLLECTING m w = (r1, m1, w1)"
    by (metis prod_cases3)
  from transitionState_None [OF t] obtain ext where
    t': "r1 = None" "state (heap w1 s) = COLLECTING" "log w1 = log w @ ext" "transitions ext = [COLLECTING]"
    by blast
  show ?thesis
  proof (cases "fs_readdir e (output_dir (heap w1 s)) (fs w1)")
    case (Inl err)
    with assms t t' show ?thesis
      by (auto simp: collectArtifacts_def logger_def transitions_def js_def)
  next
    case (Inr entries)
    with assms t t' have "r = Inr entries" "\<exists>x. w' = logger Info (js ''Artifacts collected'') x w1"
      by (auto simp: collectArtifacts_def)
    with t' show ?thesis
      by (auto simp: logger_def transitions_def js_def)
  qed
qed

lemma destroy_try_frame:
  assumes "destroy_try e s m w = (r, m', w')"
  shows "heap w' = heap w \<and> (\<exists>ext. log w' = log w @ ext \<and> transitions ext = [])"
  using assms
  by (auto simp: destroy_try_def logger_def js_def transitions_def split: prod.splits option.splits)


lemma destroySession_None:
  assumes "state (heap w s) \<noteq> DESTROYED" and "destroySession None e s m w = (r, m', w')"
  shows "r = None \<and> state (heap w' s) = DESTROYED
     \<and> (\<exists>ext. log w' = log w @ ext \<and> transitions ext = [DESTROYING])"
proof -
  obtain r1 m1 w1 where t: "transitionState None s (state (heap w s)) DESTROYING m w = (r1, m1, w1)"
    by (metis prod_cases3)
  from transitionState_None [OF t] obtain ext where
    t': "r1 = None" "log w1 = log w @ ext" "transitions ext = [DESTROYING]"
    by blast
  obtain r2 m2 w2 where d: "destroy_try e s m1 w1 = (r2, m2, w2)"
    by (metis prod_cases3)
  from destroy_try_frame [OF d] obtain ext2 where
    d': "log w2 = log w1 @ ext2" "transitions ext2 = []"
    by blast
  show ?thesis
  proof (cases r2)
    case None
    with assms t t' d d' show ?thesis
      by (auto simp: destroySession_def set_session_def transitions_append)
  next
    case (Some err)
    with assms t t' d d' show ?thesis
      by (auto simp: destroySession_def set_session_def logger_def Let_def transitions_def js_def)
  qed
qed

lemma destroySessionSafe_None:
  assumes "state (heap w s) \<noteq> DESTROYED" and "destroySessionSafe None e s m w = (r, m', w')"
  shows "r = None \<and> state (heap w' s) = DESTROYED
     \<and> (\<exists>ext. log w' = log w @ ext \<and> transitions ext = [DESTROYING])"
proof -
  obtain r1 m1 w1 where d: "destroySession None e s m w = (r1, m1, w1)"
    by (metis prod_cases3)
  from destroySession_None [OF assms(1) d] have "r1 = None" "state (heap w1 s) = DESTROYED"
    "\<exists>ext. log w1 = log w @ ext \<and> transitions ext = [DESTROYING]"
    by auto
  with assms(2) d show ?thesis
    by (auto simp: destroySessionSafe_def)
qed

lemma lifecycle_body_paths:
  assumes "lifecycle_body e s input m w = (r, m', w')"
  shows "\<exists>ext. log w' = log w @ ext \<and> state (heap w' s) \<noteq> DESTROYED \<and>
     transitions ext \<in> (case r of Inl err \<Rightarrow> {[PREPARING], [PREPARING, EXECUTING]}
                               | Inr res \<Rightarrow> {[PREPARING, EXECUTING, COLLECTING]})"
proof -
  obtain r1 m1 w1 where p: "prepareSession None e s (files input) m w = (r1, m1, w1)"
    by (metis prod_cases3)
  from prepareSession_None [OF p] obtain ext1 where
    p': "state (heap w1 s) = PREPARING" "log w1 = log w @ ext1" "transitions ext1 = [PREPARING]"
    by blast
  show ?thesis
  proof (cases r1)
    case (Some err)
    with assms p p' show ?thesis
      by (auto simp: lifecycle_body_def)
  next
    case None
    obtain t0 w2 where n: "Date_now e w1 = (t0, w2)" by (metis surj_pair)
    obtain r3 m3 w3 where x: "executeCommand None e s (command input) m1 w2 = (r3, m3, w3)"
      by (metis prod_cases3)
    from executeCommand_None [OF x] obtain ext3 where
      x': "state (heap w3 s) = EXECUTING" "log w3 = log w2 @ ext3" "transitions ext3 = [EXECUTING]"
      by blast
    show ?thesis
    proof (cases r3)
      case (Inl err)
      from Date_now_frame [OF n] p' x'
      have "log w3 = log w @ (ext1 @ ext3)" "transitions (ext1 @ ext3) = [PREPARING, EXECUTING]"
        by (simp_all add: transitions_append)
      moreover from assms p None n x Inl have "w' = w3" "r = Inl err"
        by (auto simp: lifecycle_body_def)
      ultimately show ?thesis
        using x'(1) by auto
    next
      case (Inr res)
      obtain t1 w4 where n2: "Date_now e w3 = (t1, w4)" by (metis surj_pair)
      obtain r5 m5 w5 where c: "collectArtifacts None e s m3 w4 = (r5, m5, w5)"
        by (metis prod_cases3)
      from collectArtifacts_None [OF c] obtain arts ext5 where
        c': "r5 = Inr arts" "state (heap w5 s) = COLLECTING" "log w5 = log w4 @ ext5"
          "transitions ext5 = [COLLECTING]"
        by blast
      from Date_now_frame [OF n] Date_now_frame [OF n2] p' x' c'
      have lg: "log w5 = log w @ (ext1 @ ext3 @ ext5)"
        by simp
      have tr: "transitions (ext1 @ ext3 @ ext5) = [PREPARING, EXECUTING, COLLECTING]"
        using p' x' c' by (simp add: transitions_append)
      from assms p None n x Inr n2 c c'
      have "w' = w5" and "\<exists>res. r = Inr res"
        by (auto simp: lifecycle_body_def)
      with lg tr c' show ?thesis
        by auto
    qed
  qed
qed

text \<open>
  Claim C5. Once \<open>runSessionLifecycle\<close> has created its session (\<open>initialize\<close> and
  \<open>createSession\<close> did not throw), it always returns or throws with that session
  \<open>DESTROYED\<close>, and the state transitions it logged after the creation end with the one
  into \<open>DESTROYING\<close>, made by \<open>destroySessionSafe\<close>. When the body returned (whatever
  the command's exit code, and also when listing the artifacts failed, which
  \<open>collectArtifacts\<close> catches), that is after the transition into \<open>COLLECTING\<close>; when
  the body threw (while writing the input files, or in \<open>executeCommand\<close> before the
  command ran), it is straight after the last transition the body made.
\<close>

theorem runSessionLifecycle_destroys_after_collect:
  assumes "initialize e (new_manager (o_base_dir opts)) w = (None, w1)"
    and "createSession None e (in_job_id input) opts (new_manager (o_base_dir opts)) w1 = (Inr s, m2, w2)"
  shows "\<exists>outcome w' ext. runSessionLifecycle e input opts w = (outcome, w')
     \<and> state (heap w' s) = DESTROYED
     \<and> log w' = log w2 @ ext
     \<and> transitions ext \<in>
          (case outcome of
             Inl err \<Rightarrow> {[PREPARING, DESTROYING], [PREPARING, EXECUTING, DESTROYING]}
           | Inr res \<Rightarrow> {[PREPARING, EXECUTING, COLLECTING, DESTROYING]})"
proof -
  obtain outcome m3 w3 where b: "lifecycle_body e s input m2 w2 = (outcome, m3, w3)"
    by (metis prod_cases3)
  from lifecycle_body_paths [OF b] obtain ext1 where
    b': "log w3 = log w2 @ ext1" "state (heap w3 s) \<noteq> DESTROYED"
      "transitions ext1 \<in> (case outcome of Inl err \<Rightarrow> {[PREPARING], [PREPARING, EXECUTING]}
                               | Inr res \<Rightarrow> {[PREPARING, EXECUTING, COLLECTING]})"
    by blast
  obtain r4 m4 w4 where d: "destroySessionSafe None e s m3 w3 = (r4, m4, w4)"
    by (metis prod_cases3)
  from destroySessionSafe_None [OF b'(2) d] obtain ext2 where
    d': "r4 = None" "state (heap w4 s) = DESTROYED" "log w4 = log w3 @ ext2"
      "transitions ext2 = [DESTROYING]"
    by blast
  have run: "runSessionLifecycle e input opts w = (outcome, w4)"
    using assms b d d' by (simp add: runSessionLifecycle_def)
  have lg: "log w4 = log w2 @ (ext1 @ ext2)"
    using b' d' by simp
  have tr: "transitions (ext1 @ ext2) \<in>
      (case outcome of
         Inl err \<Rightarrow> {[PREPARING, DESTROYING], [PREPARING, EXECUTING, DESTROYING]}
       | Inr res \<Rightarrow> {[PREPARING, EXECUTING, COLLECTING, DESTROYING]})"
    using b'(3) d'(4) by (cases outcome) (auto simp: transitions_append)
  from run d' lg tr show ?thesis
    by blast
qed

lemmas example_defs = initialize_def example_env_def fs_mkdir_def no_options_def
  new_manager_def nullish_def empty_world_def path_join_def DEFAULT_BASE_DIR_def js_def
  join_step_def is_file_def createSession_def Let_def Date_now_def transitionState_def
  logger_def set_session_def or_default_def created_def created_manager_def created_world_def
  example_work_dir_def example_output_dir_def example_input_def

lemma created_session:
  "fst created = Inr 0"
  "session_id (heap created_world 0) = js ''u1''"
  "state (heap created_world 0) = PREPARING"
  "work_dir (heap created_world 0) = example_work_dir"
  "output_dir (heap created_world 0) = example_output_dir"
  by (simp_all add: example_defs)

lemma created_registry: "active_sessions created_manager = [(js ''u1'', 0)]"
  by (simp add: example_defs)

lemma created_fs:
  "fs created_world =
     [([js ''opt''], Dir), ([js ''opt'', js ''opencode''], Dir),
      ([js ''opt'', js ''opencode'', js ''sessions''], Dir),
      ([js ''opt'', js ''opencode'', js ''sessions'', js ''session-u1''], Dir),
      (example_work_dir, Dir), (example_output_dir, Dir)]"
  by (simp add: example_defs)

theorem runSessionLifecycle_destroys_after_collect_witness:
  "\<exists>w1 outcome w' ext.
     initialize example_env (new_manager (o_base_dir no_options)) empty_world = (None, w1)
     \<and> createSession None example_env (in_job_id example_input) no_options
          (new_manager (o_base_dir no_options)) w1 = (Inr 0, created_manager, created_world)
     \<and> runSessionLifecycle example_env example_input no_options empty_world = (outcome, w')
     \<and> state (heap w' 0) = DESTROYED
     \<and> log w' = log created_world @ ext
     \<and> transitions ext \<in>
          (case outcome of
             Inl err \<Rightarrow> {[PREPARING, DESTROYING], [PREPARING, EXECUTING, DESTROYING]}
           | Inr res \<Rightarrow> {[PREPARING, EXECUTING, COLLECTING, DESTROYING]})"
proof -
  define w1 where "w1 = snd (initialize example_env (new_manager (o_base_dir no_options)) empty_world)"
  have "fst (initialize example_env (new_manager (o_base_dir no_options)) empty_world) = None"
    by (simp add: example_defs)
  then have i: "initialize example_env (new_manager (o_base_dir no_options)) empty_world = (None, w1)"
    by (simp add: w1_def prod_eq_iff)
  have same: "createSession None example_env (in_job_id example_input) no_options
          (new_manager (o_base_dir no_options)) w1 = created"
    by (simp add: created_def w1_def example_input_def no_options_def)
  have cr: "createSession None example_env (in_job_id example_input) no_options
          (new_manager (o_base_dir no_options)) w1 = (Inr 0, created_manager, created_world)"
    unfolding same using created_session(1)
    by (simp add: created_manager_def created_world_def prod_eq_iff)
  from runSessionLifecycle_destroys_after_collect [OF i cr] i cr show ?thesis
    by blast
qed

lemma map_of_filter_none:
  "\<forall>n. \<not> P (k, n) \<Longrightarrow> map_of (filter P xs) k = None"
  by (induction xs) auto

lemma destroy_try_outcome:
  assumes "destroy_try e s m w = (r, m', w')"
  shows "heap w' = heap w
     \<and> r = map_option Fault (first_rm_fault e (heap w s))
     \<and> (r = None \<longrightarrow>
          map_of (active_sessions m') (session_id (heap w s)) = None
          \<and> \<not> path_exists (fs w') (work_dir (heap w s))
          \<and> \<not> path_exists (fs w') (output_dir (heap w s))
          \<and> \<not> path_exists (fs w') (dirname (work_dir (heap w s))))"
  using assms
  by (auto simp: destroy_try_def first_rm_fault_def fs_rm_def logger_def path_exists_def
      delete_conv' split: option.splits intro!: map_of_filter_none)

lemma first_rm_fault_update [simp]:
  "first_rm_fault e (x\<lparr>state := t\<rparr>) = first_rm_fault e x"
  "first_rm_fault e (x\<lparr>error := v\<rparr>) = first_rm_fault e x"
  by (simp_all add: first_rm_fault_def split: option.splits)

lemma destroySession_cases:
  assumes "destroySession cb e s m w = (r, m', w')"
  shows "(state (heap w s) = DESTROYED \<and> r = None \<and> m' = m \<and> w' = w)
     \<or> (state (heap w s) \<noteq> DESTROYED \<and> r \<noteq> None
          \<and> transitionState cb s (state (heap w s)) DESTROYING m w = (r, m', w'))
     \<or> (state (heap w s) \<noteq> DESTROYED \<and> r = None
          \<and> fst (transitionState cb s (state (heap w s)) DESTROYING m w) = None
          \<and> state (heap w' s) = DESTROYED
          \<and> (case first_rm_fault e (heap w' s) of
                Some msg \<Rightarrow> error (heap w' s) = Some (render e (Fault msg))
              | None \<Rightarrow>
                  map_of (active_sessions m') (session_id (heap w' s)) = None
                  \<and> \<not> path_exists (fs w') (work_dir (heap w' s))
                  \<and> \<not> path_exists (fs w') (output_dir (heap w' s))))"
proof (cases "state (heap w s) = DESTROYED")
  case True
  with assms show ?thesis by (simp add: destroySession_def)
next
  case False
  obtain r1 m1 w1 where t: "transitionState cb s (state (heap w s)) DESTROYING m w = (r1, m1, w1)"
    by (metis prod_cases3)
  show ?thesis
  proof (cases r1)
    case (Some err)
    with assms False t show ?thesis by (auto simp: destroySession_def)
  next
    case None
    obtain r2 m2 w2 where d: "destroy_try e s m1 w1 = (r2, m2, w2)"
      by (metis prod_cases3)
    note o = destroy_try_outcome [OF d]
    show ?thesis
    proof (cases "first_rm_fault e (heap w1 s)")
      case fnone: None
      with o have "r2 = None" by simp
      with assms False t None d o fnone show ?thesis
        by (auto simp: destroySession_def set_session_def)
    next
      case (Some msg)
      with o have "r2 = Some (Fault msg)" by simp
      with assms False t None d o Some show ?thesis
        by (auto simp: destroySession_def set_session_def logger_def Let_def)
    qed
  qed
qed

text \<open>What \<open>destroySession\<close> does to the created session when deleting its work directory fails.\<close>

lemma destroySession_faulty:
  "\<exists>w1. fs w1 = fs created_world \<and> heap w1 0 = (heap created_world 0) \<lparr> state := DESTROYING \<rparr>
     \<and> destroySession None faulty_env 0 created_manager created_world
       = (None, created_manager,
          set_session 0 (\<lambda>x. x \<lparr> state := DESTROYED \<rparr>)
            (set_session 0 (\<lambda>x. x \<lparr> error := Some (js ''EACCES'') \<rparr>)
              (logger Error (js ''Error destroying session'')
                 [(js ''session_id'', LStr (js ''u1'')), (js ''error'', LStr (js ''EACCES''))] w1)))"
proof -
  define w1 where "w1 = snd (snd (transitionState None 0 PREPARING DESTROYING created_manager created_world))"
  have t: "transitionState None 0 PREPARING DESTROYING created_manager created_world
      = (None, created_manager, w1)"
    by (simp add: w1_def transitionState_def Let_def)
  have w1: "fs w1 = fs created_world" "heap w1 0 = (heap created_world 0) \<lparr> state := DESTROYING \<rparr>"
    by (simp_all add: w1_def transitionState_def Let_def logger_def set_session_def)
  have d: "destroy_try faulty_env 0 created_manager w1 = (Some (Fault (js ''EACCES'')), created_manager, w1)"
    by (simp add: destroy_try_def fs_rm_def faulty_env_def w1 created_session)
  have "destroySession None faulty_env 0 created_manager created_world
      = (None, created_manager,
         set_session 0 (\<lambda>x. x \<lparr> state := DESTROYED \<rparr>)
           (set_session 0 (\<lambda>x. x \<lparr> error := Some (js ''EACCES'') \<rparr>)
             (logger Error (js ''Error destroying session'')
                [(js ''session_id'', LStr (js ''u1'')), (js ''error'', LStr (js ''EACCES''))] w1)))"
    using t d
    by (simp add: destroySession_def created_session Let_def w1 faulty_env_def example_env_def)
  with w1 show ?thesis by blast
qed

text \<open>
  Claim C3, as stated, fails where a deletion fails. In \<open>faulty_env\<close> the deletion of the
  work directory throws: \<open>destroySession\<close> on the session just created returns normally
  with the state \<open>DESTROYED\<close>, but the session is still in the registry (the \<^verbatim>\<open>delete\<close>
  is inside the \<^verbatim>\<open>try\<close> block, after the deletions) and both directories still exist.
\<close>

theorem destroySession_failed_deletion_counterexample:
  "fst (destroySession None faulty_env 0 created_manager created_world) = None
   \<and> state (heap (snd (snd (destroySession None faulty_env 0 created_manager created_world))) 0) = DESTROYED
   \<and> getSession (fst (snd (destroySession None faulty_env 0 created_manager created_world)))
        (session_id (heap (snd (snd (destroySession None faulty_env 0 created_manager created_world))) 0)) = Some 0
   \<and> path_exists (fs (snd (snd (destroySession None faulty_env 0 created_manager created_world))))
        (work_dir (heap (snd (snd (destroySession None faulty_env 0 created_manager created_world))) 0))
   \<and> path_exists (fs (snd (snd (destroySession None faulty_env 0 created_manager created_world))))
        (output_dir (heap (snd (snd (destroySession None faulty_env 0 created_manager created_world))) 0))"
proof -
  from destroySession_faulty obtain w1 where
    w1: "fs w1 = fs created_world" "heap w1 0 = (heap created_world 0) \<lparr> state := DESTROYING \<rparr>"
    and r: "destroySession None faulty_env 0 created_manager created_world
       = (None, created_manager,
          set_session 0 (\<lambda>x. x \<lparr> state := DESTROYED \<rparr>)
            (set_session 0 (\<lambda>x. x \<lparr> error := Some (js ''EACCES'') \<rparr>)
              (logger Error (js ''Error destroying session'')
                 [(js ''session_id'', LStr (js ''u1'')), (js ''error'', LStr (js ''EACCES''))] w1)))"
    by blast
  show ?thesis
    unfolding r
    by (simp add: set_session_def logger_def w1 getSession_def created_registry created_fs
        created_session path_exists_def example_work_dir_def example_output_dir_def js_def)
qed

text \<open>
  Claim C3, amended. Whenever \<open>destroySession\<close> returns, the session's state is
  \<open>DESTROYED\<close>; and when the session was not \<open>DESTROYED\<close> before the call and none of the
  three deletions fails, the session is absent from the registry and neither its work
  directory nor its output directory exists afterwards. (The callback may be any code.)
\<close>

theorem destroySession_removes_unless_deletion_fails:
  assumes "destroySession cb e s m w = (None, m', w')"
  shows "state (heap w' s) = DESTROYED
     \<and> (state (heap w s) \<noteq> DESTROYED \<and> first_rm_fault e (heap w' s) = None \<longrightarrow>
          getSession m' (session_id (heap w' s)) = None
          \<and> \<not> path_exists (fs w') (work_dir (heap w' s))
          \<and> \<not> path_exists (fs w') (output_dir (heap w' s)))"
  using destroySession_cases [OF assms] by (auto simp: getSession_def)

theorem destroySession_removes_unless_deletion_fails_witness:
  "\<exists>m' w'. destroySession None example_env 0 created_manager created_world = (None, m', w')
     \<and> state (heap created_world 0) \<noteq> DESTROYED
     \<and> first_rm_fault example_env (heap w' 0) = None
     \<and> state (heap w' 0) = DESTROYED
     \<and> getSession m' (session_id (heap w' 0)) = None
     \<and> \<not> path_exists (fs w') (work_dir (heap w' 0))
     \<and> \<not> path_exists (fs w') (output_dir (heap w' 0))"
proof -
  have live: "state (heap created_world 0) \<noteq> DESTROYED"
    by (simp add: created_session)
  obtain r m' w' where d: "destroySession None example_env 0 created_manager created_world = (r, m', w')"
    by (metis prod_cases3)
  from destroySession_None [OF live d] have "r = None" by simp
  with d have d': "destroySession None example_env 0 created_manager created_world = (None, m', w')"
    by simp
  have quiet: "first_rm_fault example_env (heap w' 0) = None"
    by (simp add: first_rm_fault_def example_env_def)
  from destroySession_removes_unless_deletion_fails [OF d'] live quiet d' show ?thesis
    by blast
qed

text \<open>
  Claim C6. Whenever \<open>destroySession\<close> returns, the state is \<open>DESTROYED\<close>. It throws only
  what the state-change callback throws: if the callback does not throw (in particular
  if there is none), \<open>destroySession\<close> returns normally whatever the deletions do, and
  when a deletion failed, \<open>session.error\<close> holds that error's text. \<open>destroySessionSafe\<close>
  never throws, for any session and any callback, and leaves the state \<open>DESTROYED\<close>.
\<close>

theorem destroySession_never_propagates_deletion_error:
  "(fst (destroySession cb e s m w) = None \<longrightarrow>
      state (heap (snd (snd (destroySession cb e s m w))) s) = DESTROYED)
   \<and> (fst (transitionState cb s (state (heap w s)) DESTROYING m w) = None \<longrightarrow>
      fst (destroySession cb e s m w) = None)
   \<and> (state (heap w s) \<noteq> DESTROYED \<and> fst (destroySession cb e s m w) = None
        \<and> first_rm_fault e (heap (snd (snd (destroySession cb e s m w))) s) = Some msg \<longrightarrow>
      error (heap (snd (snd (destroySession cb e s m w))) s) = Some (render e (Fault msg)))
   \<and> fst (destroySessionSafe cb e s m w) = None
   \<and> state (heap (snd (snd (destroySessionSafe cb e s m w))) s) = DESTROYED"
proof -
  obtain r m' w' where d: "destroySession cb e s m w = (r, m', w')"
    by (metis prod_cases3)
  note c = destroySession_cases [OF d]
  have safe: "fst (destroySessionSafe cb e s m w) = None
      \<and> state (heap (snd (snd (destroySessionSafe cb e s m w))) s) = DESTROYED"
  proof (cases r)
    case None
    with d c show ?thesis by (auto simp: destroySessionSafe_def)
  next
    case (Some err)
    with d show ?thesis
      by (simp add: destroySessionSafe_def Let_def set_session_def logger_def)
  qed
  from d c safe show ?thesis
    by auto
qed

theorem destroySession_never_propagates_deletion_error_witness:
  "fst (transitionState None 0 (state (heap created_world 0)) DESTROYING created_manager created_world) = None
   \<and> state (heap created_world 0) \<noteq> DESTROYED
   \<and> fst (destroySession None faulty_env 0 created_manager created_world) = None
   \<and> first_rm_fault faulty_env
        (heap (snd (snd (destroySession None faulty_env 0 created_manager created_world))) 0)
       = Some (js ''EACCES'')
   \<and> state (heap (snd (snd (destroySession None faulty_env 0 created_manager created_world))) 0) = DESTROYED
   \<and> error (heap (snd (snd (destroySession None faulty_env 0 created_manager created_world))) 0)
       = Some (js ''EACCES'')
   \<and> fst (destroySessionSafe None faulty_env 0 created_manager created_world) = None"
proof -
  have quiet: "fst (transitionState None 0 (state (heap created_world 0)) DESTROYING
      created_manager created_world) = None"
    by (simp add: transitionState_def Let_def)
  have live: "state (heap created_world 0) \<noteq> DESTROYED"
    by (simp add: created_session)
  from destroySession_faulty obtain w1 where
    w1: "heap w1 0 = (heap created_world 0) \<lparr> state := DESTROYING \<rparr>"
    and r: "destroySession None faulty_env 0 created_manager created_world
       = (None, created_manager,
          set_session 0 (\<lambda>x. x \<lparr> state := DESTROYED \<rparr>)
            (set_session 0 (\<lambda>x. x \<lparr> error := Some (js ''EACCES'') \<rparr>)
              (logger Error (js ''Error destroying session'')
                 [(js ''session_id'', LStr (js ''u1'')), (js ''error'', LStr (js ''EACCES''))] w1)))"
    by blast
  have fault: "first_rm_fault faulty_env
        (heap (snd (snd (destroySession None faulty_env 0 created_manager created_world))) 0)
       = Some (js ''EACCES'')"
    unfolding r
    by (simp add: set_session_def logger_def w1 first_rm_fault_def faulty_env_def created_session)
  have rendered: "render faulty_env (Fault (js ''EACCES'')) = js ''EACCES''"
    by (simp add: faulty_env_def example_env_def)
  from destroySession_never_propagates_deletion_error
    [of None faulty_env 0 created_manager created_world "js ''EACCES''"]
    quiet live fault rendered
  show ?thesis
    by simp
qed

section \<open>Properties of the remote executor\<close>

lemma runJob_status:
  "runJob e input = Some r \<Longrightarrow> status r = (if exit_code r = 0 then Finished else Failed)"
  by (auto simp: runJob_def runJob_try_def split: option.splits sum.splits)

text \<open>
  Claim C1. The job \<open>sleep_job\<close> is killed by the timer of \<open>sshExec\<close> (5500 ms), the
  forced kill that the claim wants reported as \<open>Timeout\<close>; \<open>runJob\<close> reports \<open>Failed\<close>
  with exit code \<open>-1\<close>. By \<open>runJob_status\<close> it never reports \<open>Timeout\<close> at all.
\<close>

theorem runJob_forced_kill_reports_failed:
  "runJob_try sleep_env sleep_job = Some (Inl (TimedOut 5500))
   \<and> map_option status (runJob sleep_env sleep_job) = Some Failed
   \<and> map_option exit_code (runJob sleep_env sleep_job) = Some (-1)"
  by (simp add: runJob_def runJob_try_def sshExec_def sleep_env_def sleep_job_def nullish_def)

lemma unit_not_digit:
  "toUpperCase u \<in> {js ''GB'', js ''MB'', js ''KB''} \<Longrightarrow> u \<noteq> [] \<and> \<not> is_digit (hd u)"
  by (cases u) (auto simp: toUpperCase_def js_def ascii_upper_def is_digit_def split: if_splits)

lemma split_digits_unit:
  assumes "\<forall>c\<in>set ds. is_digit c" and "u = [] \<or> \<not> is_digit (hd u)"
  shows "takeWhile is_digit (ds @ u) = ds \<and> dropWhile is_digit (ds @ u) = u"
proof -
  have "takeWhile is_digit u = [] \<and> dropWhile is_digit u = u"
    using assms(2) by (cases u) auto
  with assms(1) show ?thesis
    by (simp add: takeWhile_append2 dropWhile_append2)
qed

lemma match_memory_unit:
  assumes "ds \<noteq> []" and "\<forall>c\<in>set ds. is_digit c"
    and "toUpperCase u \<in> {js ''GB'', js ''MB'', js ''KB''}"
  shows "match_memory (ds @ u) = Some (ds, Some u)"
proof -
  from unit_not_digit [OF assms(3)] have u: "u \<noteq> []" "\<not> is_digit (hd u)" by auto
  with split_digits_unit [OF assms(2), of u] assms(1,3) show ?thesis
    by (simp add: match_memory_def Let_def)
qed

lemma match_memory_bare:
  assumes "ds \<noteq> []" and "\<forall>c\<in>set ds. is_digit c"
  shows "match_memory ds = Some (ds, None)"
proof -
  have run: "takeWhile is_digit ds = ds" "dropWhile is_digit ds = []"
    using assms(2) by simp_all
  show ?thesis
    by (simp add: match_memory_def Let_def run assms(1))
qed

lemma ceil_div_1024: "nat \<lceil>real v / 1024\<rceil> = (v + 1023) div 1024"
proof -
  have "\<lceil>real v / 1024\<rceil> = \<lceil>of_int (int v) / of_int 1024 :: real\<rceil>" by simp
  also have "\<dots> = - (- int v div 1024)" by (rule ceiling_divide_eq_div)
  also have "\<dots> = (int v + 1023) div 1024" by linarith
  finally show ?thesis by (simp add: nat_div_distrib nat_add_distrib)
qed

lemma digits_with_unit_iff:
  assumes "\<forall>u\<in>units. u \<noteq> [] \<and> \<not> is_digit (hd u)"
  shows "digits_with_unit units s \<longleftrightarrow>
    (\<exists>ds u. s = ds @ u \<and> ds \<noteq> [] \<and> (\<forall>c\<in>set ds. is_digit c) \<and> (u = [] \<or> u \<in> units))"
proof
  assume d: "digits_with_unit units s"
  have "s = takeWhile is_digit s @ dropWhile is_digit s"
    by simp
  moreover have "\<forall>c\<in>set (takeWhile is_digit s). is_digit c"
    by (auto dest: set_takeWhileD)
  ultimately show "\<exists>ds u. s = ds @ u \<and> ds \<noteq> [] \<and> (\<forall>c\<in>set ds. is_digit c) \<and> (u = [] \<or> u \<in> units)"
    using d unfolding digits_with_unit_def by blast
next
  assume "\<exists>ds u. s = ds @ u \<and> ds \<noteq> [] \<and> (\<forall>c\<in>set ds. is_digit c) \<and> (u = [] \<or> u \<in> units)"
  then obtain ds u where s: "s = ds @ u" "ds \<noteq> []" "\<forall>c\<in>set ds. is_digit c" "u = [] \<or> u \<in> units"
    by blast
  with assms have "u = [] \<or> \<not> is_digit (hd u)" by blast
  from split_digits_unit [OF s(3) this] s show "digits_with_unit units s"
    by (simp add: digits_with_unit_def)
qed

text \<open>
  Claim C8, as stated, fails on a unit in lower case: \<^verbatim>\<open>4gb\<close> is not digits followed by
  \<^verbatim>\<open>GB\<close>, \<^verbatim>\<open>MB\<close> or \<^verbatim>\<open>KB\<close>, and it is not mapped to the default 2048 but to 4096,
  since the pattern has the flag \<^verbatim>\<open>i\<close> and the unit is put in upper case.
\<close>

theorem parseMemory_counterexample:
  "\<not> digits_with_unit {js ''GB'', js ''MB'', js ''KB''} (js ''4gb'')
   \<and> parseMemory (js ''4gb'') = 4096"
  by (simp add: digits_with_unit_def parseMemory_def match_memory_def parseInt10_def
      toUpperCase_def ascii_upper_def is_digit_def js_def Let_def)

text \<open>
  Claim C8, amended: the unit is compared without regard to case. For digits \<open>ds\<close>
  denoting \<open>n\<close> (below \<open>2 ^ 53\<close>, where the source's numbers are exact), \<open>ds\<close> with
  a unit that is \<^verbatim>\<open>GB\<close> up to case gives \<open>n * 1024\<close>, with \<^verbatim>\<open>MB\<close> up to case or with
  no unit gives \<open>n\<close>, with \<^verbatim>\<open>KB\<close> up to case gives the ceiling of \<open>n / 1024\<close>; every
  string that is not digits followed by nothing or such a unit gives 2048.
\<close>

theorem parseMemory_units:
  "(ds \<noteq> [] \<and> (\<forall>c\<in>set ds. is_digit c) \<and> parseInt10 ds < 2 ^ 53
      \<and> toUpperCase g = js ''GB'' \<and> toUpperCase m = js ''MB'' \<and> toUpperCase k = js ''KB'' \<longrightarrow>
      parseMemory (ds @ g) = parseInt10 ds * 1024
      \<and> parseMemory (ds @ m) = parseInt10 ds
      \<and> parseMemory ds = parseInt10 ds
      \<and> parseMemory (ds @ k) = nat \<lceil>real (parseInt10 ds) / 1024\<rceil>)
   \<and> (\<not> digits_with_unit {u. toUpperCase u \<in> {js ''GB'', js ''MB'', js ''KB''}} s \<longrightarrow>
      parseMemory s = 2048)"
proof -
  have other: "parseMemory s = 2048"
    if "\<not> digits_with_unit {u. toUpperCase u \<in> {js ''GB'', js ''MB'', js ''KB''}} s"
    using that by (auto simp: digits_with_unit_def parseMemory_def match_memory_def Let_def)
  have units: "parseMemory (ds @ g) = parseInt10 ds * 1024
      \<and> parseMemory (ds @ m) = parseInt10 ds
      \<and> parseMemory ds = parseInt10 ds
      \<and> parseMemory (ds @ k) = nat \<lceil>real (parseInt10 ds) / 1024\<rceil>"
    if d: "ds \<noteq> []" "\<forall>c\<in>set ds. is_digit c"
      and g: "toUpperCase g = js ''GB''" and m: "toUpperCase m = js ''MB''"
      and k: "toUpperCase k = js ''KB''"
  proof -
    have ne: "g \<noteq> []" "m \<noteq> []" "k \<noteq> []"
      using g m k by (auto simp: toUpperCase_def js_def)
    have distinct: "js ''GB'' \<noteq> js ''KB''" "js ''MB'' \<noteq> js ''GB''" "js ''MB'' \<noteq> js ''KB''"
      "toUpperCase (js ''MB'') = js ''MB''"
      by (simp_all add: js_def toUpperCase_def ascii_upper_def)
    have "parseMemory (ds @ g) = parseInt10 ds * 1024"
      using match_memory_unit [OF d, of g] g ne
      by (simp add: parseMemory_def Let_def)
    moreover have "parseMemory (ds @ m) = parseInt10 ds"
      using match_memory_unit [OF d, of m] m ne distinct
      by (simp add: parseMemory_def Let_def)
    moreover have "parseMemory ds = parseInt10 ds"
      using match_memory_bare [OF d] distinct
      by (simp add: parseMemory_def Let_def)
    moreover have "parseMemory (ds @ k) = nat \<lceil>real (parseInt10 ds) / 1024\<rceil>"
      using match_memory_unit [OF d, of k] k ne distinct
      by (simp add: parseMemory_def Let_def ceil_div_1024)
    ultimately show ?thesis by blast
  qed
  from other units show ?thesis by blast
qed

theorem parseMemory_units_witness:
  "js ''4097'' \<noteq> [] \<and> list_all is_digit (js ''4097'') \<and> parseInt10 (js ''4097'') < 2 ^ 53
   \<and> toUpperCase (js ''gb'') = js ''GB'' \<and> toUpperCase (js ''Mb'') = js ''MB''
   \<and> toUpperCase (js ''kB'') = js ''KB''
   \<and> \<not> digits_with_unit {u. toUpperCase u \<in> {js ''GB'', js ''MB'', js ''KB''}} (js ''1.5GB'')
   \<and> parseMemory (js ''4097gb'') = 4195328
   \<and> parseMemory (js ''4097Mb'') = 4097
   \<and> parseMemory (js ''4097'') = 4097
   \<and> parseMemory (js ''4097kB'') = 5
   \<and> parseMemory (js ''1.5GB'') = 2048"
proof -
  have h: "js ''4097'' \<noteq> []" "list_all is_digit (js ''4097'')" "parseInt10 (js ''4097'') < 2 ^ 53"
    "toUpperCase (js ''gb'') = js ''GB''" "toUpperCase (js ''Mb'') = js ''MB''"
    "toUpperCase (js ''kB'') = js ''KB''"
    "\<not> digits_with_unit {u. toUpperCase u \<in> {js ''GB'', js ''MB'', js ''KB''}} (js ''1.5GB'')"
    by (simp_all add: js_def is_digit_def parseInt10_def toUpperCase_def ascii_upper_def
        digits_with_unit_def)
  have v: "parseInt10 (js ''4097'') = 4097" "nat \<lceil>real 4097 / 1024\<rceil> = 5"
    "js ''4097'' @ js ''gb'' = js ''4097gb''" "js ''4097'' @ js ''Mb'' = js ''4097Mb''"
    "js ''4097'' @ js ''kB'' = js ''4097kB''"
    by (simp_all add: js_def parseInt10_def ceil_div_1024)
  from parseMemory_units [of "js ''4097''" "js ''gb''" "js ''Mb''" "js ''kB''" "js ''1.5GB''"] h
    h(2) [unfolded list_all_iff]
  have "parseMemory (js ''4097'' @ js ''gb'') = parseInt10 (js ''4097'') * 1024
      \<and> parseMemory (js ''4097'' @ js ''Mb'') = parseInt10 (js ''4097'')
      \<and> parseMemory (js ''4097'') = parseInt10 (js ''4097'')
      \<and> parseMemory (js ''4097'' @ js ''kB'') = nat \<lceil>real (parseInt10 (js ''4097'')) / 1024\<rceil>
      \<and> parseMemory (js ''1.5GB'') = 2048"
    by blast
  with h show ?thesis
    unfolding v by simp
qed

section \<open>Properties of the command validator\<close>

lemma nullable_iff: "nullable r \<longleftrightarrow> [] \<in> words r"
  by (induction r) (auto intro: star_nil)

lemma words_alt: "words (alt r s) = words r \<union> words s"
  by (induction r s rule: alt.induct) auto

lemma words_seq: "words (seq r s) = words (Seq r s)"
  by (induction r s rule: seq.induct) auto

lemma star_cons:
  "c # w \<in> star L \<longleftrightarrow> (\<exists>u v. w = u @ v \<and> c # u \<in> L \<and> v \<in> star L)"
proof
  assume "c # w \<in> star L"
  then show "\<exists>u v. w = u @ v \<and> c # u \<in> L \<and> v \<in> star L"
  proof (induction "c # w" arbitrary: w rule: star.induct)
    case (star_step u v)
    show ?case
    proof (cases u)
      case Nil
      with star_step show ?thesis by simp
    next
      case (Cons a u')
      with star_step.hyps(1,2,4) show ?thesis by auto
    qed
  qed
next
  assume "\<exists>u v. w = u @ v \<and> c # u \<in> L \<and> v \<in> star L"
  then obtain u v where "w = u @ v" "c # u \<in> L" "v \<in> star L" by blast
  then have "(c # u) @ v \<in> star L" by (intro star_step)
  with \<open>w = u @ v\<close> show "c # w \<in> star L" by simp
qed

lemma words_SeqI: "u \<in> words r \<Longrightarrow> v \<in> words s \<Longrightarrow> u @ v \<in> words (Seq r s)"
  by auto

lemma words_deriv: "w \<in> words (deriv c r) \<longleftrightarrow> c # w \<in> words r"
proof (induction r arbitrary: w)
  case (Seq r s)
  show ?case
  proof
    assume "w \<in> words (deriv c (Seq r s))"
    then consider (left) u v where "w = u @ v" "u \<in> words (deriv c r)" "v \<in> words s"
      | (right) "nullable r" "w \<in> words (deriv c s)"
      by (auto simp: words_alt words_seq split: if_splits)
    then show "c # w \<in> words (Seq r s)"
    proof cases
      case left
      with Seq.IH(1) have "c # u \<in> words r" by simp
      with left have "(c # u) @ v \<in> words (Seq r s)" by (intro words_SeqI)
      with left show ?thesis by simp
    next
      case right
      with Seq.IH(2) have "c # w \<in> words s" by simp
      moreover from right have "[] \<in> words r" by (simp add: nullable_iff)
      ultimately have "[] @ (c # w) \<in> words (Seq r s)" by (intro words_SeqI)
      then show ?thesis by simp
    qed
  next
    assume "c # w \<in> words (Seq r s)"
    then obtain u v where uv: "c # w = u @ v" "u \<in> words r" "v \<in> words s" by auto
    show "w \<in> words (deriv c (Seq r s))"
    proof (cases u)
      case Nil
      with uv have "nullable r" "w \<in> words (deriv c s)"
        using Seq.IH(2) by (auto simp: nullable_iff)
      then show ?thesis by (simp add: words_alt)
    next
      case (Cons a u')
      with uv have "a = c" "w = u' @ v" "u' \<in> words (deriv c r)"
        using Seq.IH(1) by auto
      with uv(3) have "w \<in> words (seq (deriv c r) s)"
        by (auto simp: words_seq)
      then show ?thesis by (simp add: words_alt)
    qed
  qed
next
  case (Star r)
  show ?case
    using Star.IH by (auto simp: words_seq star_cons)
qed (auto simp: words_alt)

lemma matches_prefix_iff:
  "matches_prefix r s \<longleftrightarrow> (\<exists>u v. s = u @ v \<and> u \<in> words r)"
proof (induction s arbitrary: r)
  case Nil
  then show ?case by (simp add: nullable_iff)
next
  case (Cons c cs)
  show ?case
  proof
    assume "matches_prefix r (c # cs)"
    then consider "nullable r" | "matches_prefix (deriv c r) cs" by auto
    then show "\<exists>u v. c # cs = u @ v \<and> u \<in> words r"
    proof cases
      case 1
      then have "c # cs = [] @ (c # cs) \<and> [] \<in> words r" by (simp add: nullable_iff)
      then show ?thesis by blast
    next
      case 2
      with Cons.IH obtain u v where "cs = u @ v" "u \<in> words (deriv c r)" by blast
      then have "c # cs = (c # u) @ v \<and> c # u \<in> words r" by (simp add: words_deriv)
      then show ?thesis by blast
    qed
  next
    assume "\<exists>u v. c # cs = u @ v \<and> u \<in> words r"
    then obtain u v where uv: "c # cs = u @ v" "u \<in> words r" by blast
    show "matches_prefix r (c # cs)"
    proof (cases u)
      case Nil
      with uv have "nullable r" by (simp add: nullable_iff)
      then show ?thesis by simp
    next
      case (Cons a u')
      with uv have "cs = u' @ v" "u' \<in> words (deriv c r)" by (auto simp: words_deriv)
      with Cons.IH have "matches_prefix (deriv c r) cs" by blast
      then show ?thesis by simp
    qed
  qed
qed

lemma regex_test_unanchored:
  assumes "\<not> anchored p"
  shows "regex_test p s \<longleftrightarrow> (\<exists>t u v. s = t @ u @ v \<and> u \<in> words (body p))"
proof -
  have "regex_test p s \<longleftrightarrow> (\<exists>x. suffix x s \<and> matches_prefix (body p) x)"
    using assms by (auto simp: regex_test_def list_ex_iff)
  also have "\<dots> \<longleftrightarrow> (\<exists>t u v. s = t @ u @ v \<and> u \<in> words (body p))"
    by (auto simp: matches_prefix_iff suffix_def)
  finally show ?thesis .
qed

declare split_ws.simps [simp del]

lemma digit_not_space: "is_digit c \<Longrightarrow> \<not> is_space c"
  by (auto simp: is_digit_def is_space_def)

lemma starts_solid_words:
  "starts_solid r \<Longrightarrow> w \<in> words r \<Longrightarrow> w \<noteq> [] \<and> \<not> is_space (hd w)"
proof (induction r arbitrary: w)
  case (Atom a)
  then show ?case by (cases a) (auto simp: digit_not_space)
next
  case (Seq r s)
  then obtain u v where "w = u @ v" "u \<in> words r" by auto
  with Seq.IH(1) [of u] Seq.prems(1) show ?case by auto
qed auto

lemma ends_solid_words:
  "ends_solid r \<Longrightarrow> w \<in> words r \<Longrightarrow> w \<noteq> [] \<and> \<not> is_space (last w)"
proof (induction r arbitrary: w)
  case (Atom a)
  then show ?case by (cases a) (auto simp: digit_not_space)
next
  case (Seq r s)
  then obtain u v where "w = u @ v" "v \<in> words s" by auto
  with Seq.IH(2) [of v] Seq.prems(1) show ?case by auto
qed auto

lemma dropWhile_keeps:
  assumes "u \<noteq> []" and "\<not> P (hd u)"
  shows "\<exists>t'. dropWhile P (t @ u @ v) = t' @ u @ v"
proof -
  from assms have "dropWhile P (u @ v) = u @ v"
    by (cases u) auto
  then show ?thesis
    by (cases "\<forall>x\<in>set t. P x") (auto simp: dropWhile_append)
qed

lemma trim_keeps:
  assumes "u \<noteq> []" and "\<not> is_space (hd u)" and "\<not> is_space (last u)"
  shows "\<exists>t' v'. trim (t @ u @ v) = t' @ u @ v'"
proof -
  from dropWhile_keeps [where u = u and P = is_space and t = t and v = v] assms(1,2)
  obtain t' where front: "dropWhile is_space (t @ u @ v) = t' @ u @ v"
    by blast
  have "rev u \<noteq> []" and "\<not> is_space (hd (rev u))"
    using assms(1,3) by (simp_all add: hd_rev)
  with dropWhile_keeps [where u = "rev u" and P = is_space and t = "rev v" and v = "rev t'"]
  obtain v' where "dropWhile is_space (rev v @ rev u @ rev t') = v' @ rev u @ rev t'"
    by blast
  with front have "trim (t @ u @ v) = t' @ u @ rev v'"
    by (simp add: trim_def)
  then show ?thesis by blast
qed

lemma trim_inside: "\<exists>a b. s = a @ trim s @ b"
proof -
  have "s = takeWhile is_space s @ dropWhile is_space s"
    by simp
  moreover have "rev (dropWhile is_space s)
      = takeWhile is_space (rev (dropWhile is_space s)) @ dropWhile is_space (rev (dropWhile is_space s))"
    by simp
  then have "dropWhile is_space s
      = trim s @ rev (takeWhile is_space (rev (dropWhile is_space s)))"
    unfolding trim_def by (metis rev_append rev_rev_ident)
  ultimately show ?thesis by metis
qed

lemma dangerous_solid:
  "\<forall>p\<in>set DANGEROUS_PATTERNS. \<not> anchored p \<and> starts_solid (body p) \<and> ends_solid (body p)"
  by (simp add: DANGEROUS_PATTERNS_def rm_rf_root_def unanchored_def plus_def is_space_def)

lemma dangerous_test_trim:
  assumes "p \<in> set DANGEROUS_PATTERNS"
  shows "regex_test p (trim s) \<longleftrightarrow> regex_test p s"
proof -
  from assms dangerous_solid have p: "\<not> anchored p" "starts_solid (body p)" "ends_solid (body p)"
    by auto
  show ?thesis
  proof
    assume "regex_test p (trim s)"
    then obtain t u v where "trim s = t @ u @ v" "u \<in> words (body p)"
      using p(1) by (auto simp: regex_test_unanchored)
    moreover obtain a b where "s = a @ trim s @ b"
      using trim_inside by blast
    ultimately have "s = (a @ t) @ u @ (v @ b)" by simp
    with \<open>u \<in> words (body p)\<close> show "regex_test p s"
      unfolding regex_test_unanchored [OF p(1)] by blast
  next
    assume "regex_test p s"
    then obtain t u v where s: "s = t @ u @ v" and u: "u \<in> words (body p)"
      using p(1) by (auto simp: regex_test_unanchored)
    from starts_solid_words [OF p(2) u] ends_solid_words [OF p(3) u]
    have "u \<noteq> []" "\<not> is_space (hd u)" "\<not> is_space (last u)" by auto
    from trim_keeps [OF this, of t v] s u show "regex_test p (trim s)"
      using p(1) by (auto simp: regex_test_unanchored)
  qed
qed

lemma hd_split_ws: "hd (split_ws s) = takeWhile (\<lambda>c. \<not> is_space c) s"
  by (subst split_ws.simps) (simp add: Let_def)

text \<open>
  Claim C2. A command that matches a pattern of \<open>DANGEROUS_PATTERNS\<close> is rejected,
  whatever its first token is. (The patterns are tested on the trimmed command; every
  match begins and ends with a code unit that is not white space, so trimming neither
  removes nor adds one.)
\<close>

theorem dangerous_pattern_rejected:
  assumes "p \<in> set DANGEROUS_PATTERNS" and "regex_test p cmd"
  shows "\<not> allowed (validateCommand cmd)"
proof -
  from assms have hit: "regex_test p (trim cmd)"
    by (simp add: dangerous_test_trim)
  with assms(1) have "List.find (\<lambda>p. regex_test p (trim cmd)) DANGEROUS_PATTERNS \<noteq> None"
    by (auto simp: find_None_iff)
  then show ?thesis
    by (auto simp: validateCommand_def Let_def)
qed

lemma rm_rf_root_member: "rm_rf_root \<in> set DANGEROUS_PATTERNS"
  by (simp add: DANGEROUS_PATTERNS_def)

lemma test_rm_rf: "regex_test rm_rf_root (js ''git log; rm -rf /'')"
  by (simp add: regex_test_def rm_rf_root_def unanchored_def plus_def js_def is_space_def)

lemmas regex_eval = regex_test_def unanchored_def from_start_def plus_def opt_def subcommand_def
  rm_rf_root_def js_def is_space_def is_digit_def is_line_terminator_def

theorem dangerous_pattern_rejected_witness:
  "rm_rf_root \<in> set DANGEROUS_PATTERNS
   \<and> regex_test rm_rf_root (js ''git log; rm -rf /'')
   \<and> base_command (js ''git log; rm -rf /'') = js ''git''
   \<and> js ''git'' \<in> set ALLOWED_COMMANDS
   \<and> \<not> allowed (validateCommand (js ''git log; rm -rf /''))"
proof -
  have base: "base_command (js ''git log; rm -rf /'') = js ''git''"
    by (simp add: base_command_def hd_split_ws trim_def js_def is_space_def)
  have listed: "js ''git'' \<in> set ALLOWED_COMMANDS"
    by (simp add: ALLOWED_COMMANDS_def js_def)
  from dangerous_pattern_rejected [OF rm_rf_root_member test_rm_rf] rm_rf_root_member test_rm_rf
    base listed
  show ?thesis by blast
qed

text \<open>
  Claim C9. Whenever \<open>validateCommand\<close> accepts, \<open>sanitized_command\<close> is the trimmed
  input itself. \<open>sanitizeCommand\<close> is not applied: \<^verbatim>\<open>ls -a;b\<close> is accepted with its
  semicolon in \<open>sanitized_command\<close>, where \<open>sanitizeCommand\<close> would have removed it.
\<close>

theorem accepted_command_is_trimmed_not_sanitized:
  "(allowed (validateCommand cmd) \<longrightarrow> sanitized_command (validateCommand cmd) = Some (trim cmd))
   \<and> allowed (validateCommand (js ''ls -a;b''))
   \<and> sanitized_command (validateCommand (js ''ls -a;b'')) = Some (js ''ls -a;b'')
   \<and> sanitizeCommand (js ''ls -a;b'') = js ''ls -ab''"
proof -
  have general: "sanitized_command (validateCommand cmd) = Some (trim cmd)"
    if "allowed (validateCommand cmd)" for cmd
    using that by (auto simp: validateCommand_def Let_def split: if_splits option.splits)
  have t: "trim (js ''ls -a;b'') = js ''ls -a;b''"
    by (simp add: trim_def js_def is_space_def)
  have safe: "List.find (\<lambda>p. regex_test p (js ''ls -a;b'')) DANGEROUS_PATTERNS = None"
    by (simp add: DANGEROUS_PATTERNS_def regex_eval)
  have base: "hd (split_ws (js ''ls -a;b'')) = js ''ls''"
    by (simp add: hd_split_ws js_def is_space_def)
  have listed: "js ''ls'' \<in> set ALLOWED_COMMANDS"
    by (simp add: ALLOWED_COMMANDS_def js_def)
  have ok: "allowed (validateCommand (js ''ls -a;b''))"
    using safe base listed by (simp add: validateCommand_def t Let_def) (simp add: js_def)
  have parts: "split_ws (js ''ls -a;b'') = [js ''ls'', js ''-a;b'']"
    by (simp add: split_ws.simps js_def is_space_def Let_def)
  have clean: "sanitizeCommand (js ''ls -a;b'') = js ''ls -ab''"
    by (simp add: sanitizeCommand_def t parts) (simp add: js_def is_meta_def)
  from general [of cmd] general [OF ok] ok clean t show ?thesis
    by simp
qed

theorem accepted_command_is_trimmed_not_sanitized_witness:
  "allowed (validateCommand (js ''  ls -a;b ''))
   \<and> sanitized_command (validateCommand (js ''  ls -a;b '')) = Some (js ''ls -a;b'')"
proof -
  have t: "trim (js ''  ls -a;b '') = js ''ls -a;b''" "trim (js ''ls -a;b'') = js ''ls -a;b''"
    by (simp_all add: trim_def js_def is_space_def)
  have same: "validateCommand (js ''  ls -a;b '') = validateCommand (js ''ls -a;b'')"
    by (simp add: validateCommand_def t)
  from accepted_command_is_trimmed_not_sanitized [of "js ''  ls -a;b ''"] show ?thesis
    unfolding same t by simp
qed

lemma solid_words_sound:
  "solid_words r = Some us \<Longrightarrow> u \<in> words r \<Longrightarrow> u \<in> set us \<and> (\<forall>c\<in>set u. \<not> is_space c)"
proof (induction r arbitrary: us u)
  case (Atom a)
  then show ?case by (cases a) (auto split: if_splits)
next
  case (Seq r s)
  from Seq.prems(1) obtain xs ys where
    xy: "solid_words r = Some xs" "solid_words s = Some ys"
      "us = concat (map (\<lambda>u. map (\<lambda>v. u @ v) ys) xs)"
    by (auto split: option.splits)
  from Seq.prems(2) obtain a b where ab: "u = a @ b" "a \<in> words r" "b \<in> words s"
    by auto
  from Seq.IH(1) [OF xy(1) ab(2)] Seq.IH(2) [OF xy(2) ab(3)] xy(3) ab(1) show ?case
    by auto
next
  case (Alt r s)
  from Alt.prems(1) obtain xs ys where
    xy: "solid_words r = Some xs" "solid_words s = Some ys" "us = xs @ ys"
    by (auto split: option.splits)
  with Alt.prems(2) Alt.IH(1) [OF xy(1)] Alt.IH(2) [OF xy(2)] show ?case
    by auto
qed auto

lemma starts_space_sound:
  "starts_space r \<Longrightarrow> u \<in> words r \<Longrightarrow> u \<noteq> [] \<and> is_space (hd u)"
proof (induction r arbitrary: u)
  case (Atom a)
  then show ?case by (cases a) auto
next
  case (Seq r s)
  then obtain a b where "u = a @ b" "a \<in> words r" by auto
  with Seq.IH(1) [of a] Seq.prems(1) show ?case by auto
qed auto

lemma first_tokens_sound:
  "first_tokens r = Some ts \<Longrightarrow> u \<in> words r \<Longrightarrow>
   \<exists>tok w. tok \<in> set ts \<and> u = tok @ w \<and> (\<forall>c\<in>set tok. \<not> is_space c) \<and> w \<noteq> [] \<and> is_space (hd w)"
proof (induction r arbitrary: ts u)
  case (Seq r s)
  from Seq.prems(2) obtain a b where ab: "u = a @ b" "a \<in> words r" "b \<in> words s"
    by auto
  show ?case
  proof (cases "starts_space r")
    case True
    with Seq.prems(1) have "ts = [[]]" by simp
    moreover from starts_space_sound [OF True ab(2)] ab(1) have "u \<noteq> []" "is_space (hd u)"
      by auto
    ultimately show ?thesis by auto
  next
    case False
    with Seq.prems(1) obtain xs ys where
      xy: "solid_words r = Some xs" "first_tokens s = Some ys"
        "ts = concat (map (\<lambda>u. map (\<lambda>v. u @ v) ys) xs)"
      by (auto split: option.splits)
    from solid_words_sound [OF xy(1) ab(2)] have a: "a \<in> set xs" "\<forall>c\<in>set a. \<not> is_space c"
      by auto
    from Seq.IH(2) [OF xy(2) ab(3)] obtain tok w where
      b: "tok \<in> set ys" "b = tok @ w" "\<forall>c\<in>set tok. \<not> is_space c" "w \<noteq> []" "is_space (hd w)"
      by blast
    have "a @ tok \<in> set ts" using a(1) b(1) xy(3) by auto
    moreover have "u = (a @ tok) @ w" using ab(1) b(2) by simp
    moreover have "\<forall>c\<in>set (a @ tok). \<not> is_space c" using a(2) b(3) by auto
    ultimately show ?thesis using b(4,5) by blast
  qed
next
  case (Alt r s)
  from Alt.prems(1) obtain xs ys where
    xy: "first_tokens r = Some xs" "first_tokens s = Some ys" "ts = xs @ ys"
    by (auto split: option.splits)
  from Alt.prems(2) consider "u \<in> words r" | "u \<in> words s" by auto
  then show ?case
  proof cases
    case 1
    from Alt.IH(1) [OF xy(1) 1] xy(3) show ?thesis by auto
  next
    case 2
    from Alt.IH(2) [OF xy(2) 2] xy(3) show ?thesis by auto
  qed
next
  case (Atom a)
  then have sp: "starts_space (Atom a)" and "ts = [[]]" by (auto split: if_splits)
  from starts_space_sound [OF sp Atom.prems(2)] \<open>ts = [[]]\<close> show ?case by auto
qed auto

lemma first_token_of_match:
  assumes "anchored p" and "first_tokens (body p) = Some ts" and "regex_test p t"
  shows "takeWhile (\<lambda>c. \<not> is_space c) t \<in> set ts"
proof -
  from assms(1,3) obtain u v where uv: "t = u @ v" "u \<in> words (body p)"
    by (auto simp: regex_test_def matches_prefix_iff)
  from first_tokens_sound [OF assms(2) uv(2)] obtain tok w where
    tw: "tok \<in> set ts" "u = tok @ w" "\<forall>c\<in>set tok. \<not> is_space c" "w \<noteq> []" "is_space (hd w)"
    by blast
  then have "takeWhile (\<lambda>c. \<not> is_space c) (w @ v) = []"
    by (cases w) auto
  with tw(3) uv(1) tw(2) have "takeWhile (\<lambda>c. \<not> is_space c) t = tok"
    by (simp add: takeWhile_append2)
  with tw(1) show ?thesis by simp
qed

lemma allowed_patterns_tokens:
  "list_all (\<lambda>p. anchored p \<and>
       (case first_tokens (body p) of
          Some ts \<Rightarrow> list_all (\<lambda>t. t \<in> set ALLOWED_COMMANDS) ts
        | None \<Rightarrow> False)) ALLOWED_PATTERNS"
  by (simp add: ALLOWED_PATTERNS_def from_start_def subcommand_def plus_def opt_def
      ALLOWED_COMMANDS_def js_def is_space_def)

text \<open>
  The templates of \<open>ALLOWED_PATTERNS\<close> admit nothing that \<open>ALLOWED_COMMANDS\<close> does not:
  each begins with a listed command followed by white space.
\<close>

lemma allowed_patterns_redundant:
  assumes "p \<in> set ALLOWED_PATTERNS" and "regex_test p t"
  shows "hd (split_ws t) \<in> set ALLOWED_COMMANDS"
proof -
  from allowed_patterns_tokens assms(1) obtain ts where
    p: "anchored p" "first_tokens (body p) = Some ts" "\<forall>t\<in>set ts. t \<in> set ALLOWED_COMMANDS"
    by (auto simp: list_all_iff split: option.splits)
  from first_token_of_match [OF p(1,2) assms(2)] p(3) show ?thesis
    by (simp add: hd_split_ws)
qed

text \<open>So a command is accepted exactly when it is not empty, not dangerous and its first token is listed.\<close>

lemma validateCommand_allowed_iff:
  "allowed (validateCommand cmd) \<longleftrightarrow>
     trim cmd \<noteq> [] \<and> (\<forall>p\<in>set DANGEROUS_PATTERNS. \<not> regex_test p cmd)
     \<and> base_command cmd \<in> set ALLOWED_COMMANDS"
proof -
  have d: "List.find (\<lambda>p. regex_test p (trim cmd)) DANGEROUS_PATTERNS = None
      \<longleftrightarrow> (\<forall>p\<in>set DANGEROUS_PATTERNS. \<not> regex_test p cmd)"
    by (auto simp: find_None_iff dangerous_test_trim)
  have a: "list_ex (\<lambda>p. regex_test p (trim cmd)) ALLOWED_PATTERNS
      \<Longrightarrow> base_command cmd \<in> set ALLOWED_COMMANDS"
    by (auto simp: list_ex_iff base_command_def dest: allowed_patterns_redundant)
  show ?thesis
    using d a by (auto simp: validateCommand_def Let_def base_command_def split: option.splits)
qed

text \<open>
  Claim C7. A command that is not empty after trimming, matches no dangerous pattern,
  has a first token outside \<open>ALLOWED_COMMANDS\<close> and, trimmed as \<open>validateCommand\<close>
  tests it, matches no pattern of \<open>ALLOWED_PATTERNS\<close>, is rejected, and the reason is
  \<^verbatim>\<open>Command not in allowlist: \<close> followed by that first token. (By
  \<open>validateCommand_allowed_iff\<close> the condition on the templates follows from the one on
  the first token, so it may as well be read on the command as given.)
\<close>

theorem unlisted_command_rejected:
  assumes "trim cmd \<noteq> []"
    and "\<forall>p\<in>set DANGEROUS_PATTERNS. \<not> regex_test p cmd"
    and "base_command cmd \<notin> set ALLOWED_COMMANDS"
    and "\<forall>p\<in>set ALLOWED_PATTERNS. \<not> regex_test p (trim cmd)"
  shows "\<not> allowed (validateCommand cmd)
     \<and> reason (validateCommand cmd) = Some (js ''Command not in allowlist: '' @ base_command cmd)"
proof -
  from assms(2) have "\<forall>p\<in>set DANGEROUS_PATTERNS. \<not> regex_test p (trim cmd)"
    by (simp add: dangerous_test_trim)
  then have "List.find (\<lambda>p. regex_test p (trim cmd)) DANGEROUS_PATTERNS = None"
    by (simp add: find_None_iff)
  moreover from assms(4) have "\<not> list_ex (\<lambda>p. regex_test p (trim cmd)) ALLOWED_PATTERNS"
    by (simp add: list_ex_iff)
  ultimately show ?thesis
    using assms(1,3) by (simp add: validateCommand_def Let_def base_command_def)
qed

theorem unlisted_command_rejected_witness:
  "trim (js '' foo bar'') \<noteq> []
   \<and> list_all (\<lambda>p. \<not> regex_test p (js '' foo bar'')) DANGEROUS_PATTERNS
   \<and> base_command (js '' foo bar'') = js ''foo''
   \<and> js ''foo'' \<notin> set ALLOWED_COMMANDS
   \<and> list_all (\<lambda>p. \<not> regex_test p (trim (js '' foo bar''))) ALLOWED_PATTERNS
   \<and> \<not> allowed (validateCommand (js '' foo bar''))
   \<and> reason (validateCommand (js '' foo bar'')) = Some (js ''Command not in allowlist: foo'')"
proof -
  have t: "trim (js '' foo bar'') = js ''foo bar''"
    by (simp add: trim_def js_def is_space_def)
  have h1: "trim (js '' foo bar'') \<noteq> []"
    unfolding t by (simp add: js_def)
  have h2: "list_all (\<lambda>p. \<not> regex_test p (js '' foo bar'')) DANGEROUS_PATTERNS"
    by (simp add: DANGEROUS_PATTERNS_def regex_eval)
  have base: "base_command (js '' foo bar'') = js ''foo''"
    by (simp add: base_command_def t hd_split_ws) (simp add: js_def is_space_def)
  have h3: "js ''foo'' \<notin> set ALLOWED_COMMANDS"
    by (simp add: ALLOWED_COMMANDS_def js_def)
  have h4: "list_all (\<lambda>p. \<not> regex_test p (trim (js '' foo bar''))) ALLOWED_PATTERNS"
    unfolding t by (simp add: ALLOWED_PATTERNS_def regex_eval)
  from unlisted_command_rejected [of "js '' foo bar''"] h1 h2 [unfolded list_all_iff] base h3
    h4 [unfolded list_all_iff]
  have "\<not> allowed (validateCommand (js '' foo bar''))
     \<and> reason (validateCommand (js '' foo bar'')) = Some (js ''Command not in allowlist: '' @ js ''foo'')"
    by simp
  with h1 h2 base h3 h4 show ?thesis
    by (simp add: js_def)
qed

end
